theory Spec2Isabelle
  imports Main "HOL-Library.Word"
begin

unbundle bit_operations_syntax

section \<open>Data model of stepper.c\<close>

text \<open>
  Machine integers are words: \<open>uint8_t\<close> is \<open>8 word\<close>, \<open>int32_t\<close> and \<open>uint32_t\<close>
  are \<open>32 word\<close>. Arithmetic wraps as on the AVR; a signed comparison is written with
  \<open><s\<close> (it reads both sides with \<open>sint\<close>), an unsigned one with \<open><\<close>.
\<close>

type_synonym uint8_t = "8 word"
type_synonym int32_t = "32 word"
type_synonym uint32_t = "32 word"

subsection \<open>The constants stepper.c defines\<close>

definition RAMP_NOOP_CRUISE :: uint8_t where "RAMP_NOOP_CRUISE = 0"
definition RAMP_ACCEL :: uint8_t where "RAMP_ACCEL = 1"
definition RAMP_DECEL :: uint8_t where "RAMP_DECEL = 2"

definition LOAD_NOOP :: uint8_t where "LOAD_NOOP = 0"
definition LOAD_LINE :: uint8_t where "LOAD_LINE = 1"
definition LOAD_BLOCK :: uint8_t where "LOAD_BLOCK = 2"

definition ST_NOOP :: uint8_t where "ST_NOOP = 0"
definition ST_END_OF_BLOCK :: uint8_t where "ST_END_OF_BLOCK = 1"
definition ST_DECEL :: uint8_t where "ST_DECEL = 2"
definition ST_DECEL_EOB :: uint8_t where "ST_DECEL_EOB = 3"

definition SEGMENT_BUFFER_SIZE :: nat where "SEGMENT_BUFFER_SIZE = 10"

text \<open>C's \<open>true\<close> and \<open>false\<close> stored in a \<open>uint8_t\<close>.\<close>

definition c_true :: uint8_t where "c_true = 1"
definition c_false :: uint8_t where "c_false = 0"

text \<open>Bit numbers of avr/io.h used by the driver.\<close>

definition OCIE2A :: nat where "OCIE2A = 1"
definition CS21 :: nat where "CS21 = 1"

lemmas stepper_consts =
  RAMP_NOOP_CRUISE_def RAMP_ACCEL_def RAMP_DECEL_def
  LOAD_NOOP_def LOAD_LINE_def LOAD_BLOCK_def
  ST_NOOP_def ST_END_OF_BLOCK_def ST_DECEL_def ST_DECEL_EOB_def
  SEGMENT_BUFFER_SIZE_def c_true_def c_false_def OCIE2A_def CS21_def

subsection \<open>Macros of config.h, nuts_bolts.h and pin_map.h\<close>

text \<open>
  These headers are not part of the translated file, so the values of their macros are
  parameters of the model. \<open>ISR_TICKS_PER_ACCELERATION_TICK\<close> is an integer
  expression that the code stores into the \<open>uint8_t\<close> ramp counter; the truncation
  is written out where it is stored.
\<close>

record config =
  ISR_TICKS_PER_ACCELERATION_TICK :: nat
  MINIMUM_STEP_RATE :: uint32_t
  X_STEP_BIT :: nat
  Y_STEP_BIT :: nat
  Z_STEP_BIT :: nat
  X_DIRECTION_BIT :: nat
  Y_DIRECTION_BIT :: nat
  Z_DIRECTION_BIT :: nat
  STEPPERS_DISABLE_BIT :: nat
  EXEC_CYCLE_STOP :: uint8_t
  EXEC_ALARM :: uint8_t
  BITFLAG_INVERT_ST_ENABLE :: uint8_t

definition STEP_MASK :: "config \<Rightarrow> uint8_t" where
  "STEP_MASK cfg =
     push_bit (X_STEP_BIT cfg) 1 OR push_bit (Y_STEP_BIT cfg) 1 OR push_bit (Z_STEP_BIT cfg) 1"

definition DIRECTION_MASK :: "config \<Rightarrow> uint8_t" where
  "DIRECTION_MASK cfg =
     push_bit (X_DIRECTION_BIT cfg) 1 OR push_bit (Y_DIRECTION_BIT cfg) 1
       OR push_bit (Z_DIRECTION_BIT cfg) 1"

datatype axis = X_AXIS | Y_AXIS | Z_AXIS

subsection \<open>Structures\<close>

text \<open>\<open>stepper_t\<close>, the running data of the interrupt.\<close>

record stepper_t =
  counter_x :: int32_t
  counter_y :: int32_t
  counter_z :: int32_t
  segment_steps_remaining :: uint8_t
  counter_d :: int32_t
  delta_d :: uint32_t
  d_per_tick :: uint32_t
  execute_step :: uint8_t
  step_pulse_time :: uint8_t
  out_bits :: uint8_t
  load_flag :: uint8_t
  ramp_count :: uint8_t
  ramp_type :: uint8_t

text \<open>
  \<open>st_data_t\<close>, the data shared by the segments of one planner block. The type
  parameter \<open>'f\<close> stands for C's \<open>float\<close>, whose arithmetic is not modelled.
\<close>

record 'f st_data_t =
  step_events_remaining :: int32_t
  d_next :: uint32_t
  initial_rate :: uint32_t
  nominal_rate :: uint32_t
  rate_delta :: uint32_t
  decelerate_after :: int32_t
  mm_per_step :: 'f

record st_segment_t =
  n_step :: uint8_t
  st_data_index :: uint8_t
  flag :: uint8_t

text \<open>
  \<open>plan_block_t\<close> of planner.h, with the fields stepper.c reads. Its integer fields
  are 32 bits wide; an array indexed by an axis is a function of the axis.
\<close>

record 'f plan_block_t =
  direction_bits :: uint8_t
  steps :: "axis \<Rightarrow> int32_t"
  step_event_count :: int32_t
  entry_speed_sqr :: 'f
  nominal_speed_sqr :: 'f
  acceleration :: 'f
  millimeters :: 'f

text \<open>The fields of \<open>sys\<close> and \<open>settings\<close> that the translated functions touch.\<close>

record system_t =
  sys_position :: "axis \<Rightarrow> int32_t"
  sys_execute :: uint8_t

record settings_t =
  invert_mask :: uint8_t
  stepper_idle_lock_time :: uint8_t
  settings_flags :: uint8_t

text \<open>What \<open>printString\<close> and \<open>printInteger\<close> send to the serial port.\<close>

datatype serial_item = PrintString string | PrintInteger int

text \<open>
  The planner (planner.c) and the floating point conversions are outside the
  translated file. The planner's state is a value of an arbitrary type \<open>'p\<close>; its
  functions and the conversions are parameters. A pointer to a planner block is modelled
  by the block it points to (\<open>None\<close> is \<open>NULL\<close>): the stepper reads only fields that the
  planner never changes once the block is queued.
\<close>

record ('p, 'f) extern =
  plan_get_current_block :: "'p \<Rightarrow> 'f plan_block_t option"
  plan_discard_current_block :: "'p \<Rightarrow> 'p"
  plan_get_block_by_index :: "'p \<Rightarrow> uint8_t \<Rightarrow> 'f plan_block_t option"
  calculate_trapezoid_for_block :: "'p \<Rightarrow> uint8_t \<Rightarrow> int32_t"
  initial_rate_of :: "'f \<Rightarrow> uint32_t"
  nominal_rate_of :: "'f \<Rightarrow> uint32_t"
  rate_delta_of :: "'f \<Rightarrow> uint32_t"
  d_next_of :: "'f \<Rightarrow> int32_t \<Rightarrow> uint32_t"
  mm_per_step_of :: "'f \<Rightarrow> int32_t \<Rightarrow> 'f"

text \<open>
  The static variables of stepper.c, the hardware registers it writes, and the state
  of its collaborators. A pointer into \<open>segment_buffer\<close> or \<open>segment_data\<close> is the
  index of the slot it points to, so that a write through the array is seen through the
  pointer.
\<close>

record ('p, 'f) globals =
  st :: stepper_t
  segment_data :: "'f st_data_t list"
  segment_buffer :: "st_segment_t list"
  segment_buffer_tail :: uint8_t
  segment_buffer_head :: uint8_t
  segment_next_head :: uint8_t
  busy :: uint8_t
  pl_current_block :: "'f plan_block_t option"
  st_current_segment :: "nat option"
  st_current_data :: "nat option"
  pl_prep_block :: "'f plan_block_t option"
  pl_prep_index :: uint8_t
  st_prep_data :: "nat option"
  st_data_prep_index :: uint8_t
  STEPPING_PORT :: uint8_t
  STEPPERS_DISABLE_PORT :: uint8_t
  TCNT0 :: uint8_t
  TCCR0B :: uint8_t
  TIMSK2 :: uint8_t
  TCCR2B :: uint8_t
  delay_ms_calls :: "uint8_t list"
  serial_out :: "serial_item list"
  sys :: system_t
  settings :: settings_t
  planner :: 'p

section \<open>Ring indices\<close>

definition next_block_index :: "uint8_t \<Rightarrow> uint8_t" where
  "next_block_index block_index =
     (let block_index = block_index + 1
      in if block_index = of_nat SEGMENT_BUFFER_SIZE then 0 else block_index)"

definition next_block_pl_index :: "uint8_t \<Rightarrow> uint8_t" where
  "next_block_pl_index block_index =
     (let block_index = block_index + 1
      in if block_index = 18 then 0 else block_index)"

section \<open>Lifecycle: \<open>st_go_idle\<close> and \<open>st_reset\<close>\<close>

definition bit_istrue :: "uint8_t \<Rightarrow> uint8_t \<Rightarrow> bool" where
  "bit_istrue x m = (x AND m \<noteq> 0)"

definition st_go_idle :: "config \<Rightarrow> ('p, 'f) globals \<Rightarrow> ('p, 'f) globals" where
  "st_go_idle cfg s =
     (let s = s\<lparr>TIMSK2 := TIMSK2 s AND NOT (push_bit OCIE2A 1)\<rparr>;
          s = s\<lparr>TCCR2B := 0\<rparr>;
          s = s\<lparr>busy := c_false\<rparr>
      in if stepper_idle_lock_time (settings s) \<noteq> 0xff
            \<or> bit_istrue (sys_execute (sys s)) (EXEC_ALARM cfg)
         then
           (let s = s\<lparr>delay_ms_calls :=
                       delay_ms_calls s @ [stepper_idle_lock_time (settings s)]\<rparr>
            in if bit_istrue (settings_flags (settings s)) (BITFLAG_INVERT_ST_ENABLE cfg)
               then s\<lparr>STEPPERS_DISABLE_PORT :=
                        STEPPERS_DISABLE_PORT s AND NOT (push_bit (STEPPERS_DISABLE_BIT cfg) 1)\<rparr>
               else s\<lparr>STEPPERS_DISABLE_PORT :=
                        STEPPERS_DISABLE_PORT s OR push_bit (STEPPERS_DISABLE_BIT cfg) 1\<rparr>)
         else s)"

text \<open>\<open>memset(&st, 0, sizeof(st))\<close>.\<close>

definition st_zero :: stepper_t where
  "st_zero = \<lparr>counter_x = 0, counter_y = 0, counter_z = 0, segment_steps_remaining = 0,
              counter_d = 0, delta_d = 0, d_per_tick = 0, execute_step = 0,
              step_pulse_time = 0, out_bits = 0, load_flag = 0, ramp_count = 0,
              ramp_type = 0\<rparr>"

definition st_reset :: "('p, 'f) globals \<Rightarrow> ('p, 'f) globals" where
  "st_reset s =
     (let s = s\<lparr>st := st_zero\<rparr>;
          s = s\<lparr>pl_current_block := None\<rparr>;
          s = s\<lparr>pl_prep_block := None\<rparr>;
          s = s\<lparr>pl_prep_index := 0\<rparr>;
          s = s\<lparr>st_data_prep_index := 0\<rparr>;
          s = s\<lparr>st := (st s)\<lparr>load_flag := LOAD_BLOCK\<rparr>\<rparr>;
          s = s\<lparr>busy := c_false\<rparr>;
          s = s\<lparr>segment_buffer_tail := 0\<rparr>;
          s = s\<lparr>segment_next_head := 1\<rparr>
      in s)"

section \<open>The stepper driver interrupt, \<open>ISR(TIMER2_COMPA_vect)\<close>\<close>

text \<open>
  A function of the model that reads through a pointer returns \<open>None\<close> where the C
  code would read through \<open>NULL\<close> or outside its array (undefined behaviour), and
  \<open>Some\<close> of the new state otherwise. A function with an early \<open>return\<close> says which
  way it left: \<open>Return\<close> when the C function returned, \<open>Continue\<close> when control goes on
  to the statement that follows.
\<close>

datatype 'a flow = Return 'a | Continue 'a

definition deref_segment :: "('p, 'f) globals \<Rightarrow> nat option \<Rightarrow> st_segment_t option" where
  "deref_segment s p =
     (case p of None \<Rightarrow> None
      | Some i \<Rightarrow> if i < length (segment_buffer s) then Some (segment_buffer s ! i) else None)"

definition deref_data :: "('p, 'f) globals \<Rightarrow> nat option \<Rightarrow> 'f st_data_t option" where
  "deref_data s p =
     (case p of None \<Rightarrow> None
      | Some i \<Rightarrow> if i < length (segment_data s) then Some (segment_data s ! i) else None)"

text \<open>Lines 212 to 217: pulse the stepper port, if flagged.\<close>

definition isr_pulse :: "config \<Rightarrow> ('p, 'f) globals \<Rightarrow> ('p, 'f) globals" where
  "isr_pulse cfg s =
     (if execute_step (st s) \<noteq> 0 then
        (let s = s\<lparr>st := (st s)\<lparr>execute_step := c_false\<rparr>\<rparr>;
             s = s\<lparr>STEPPING_PORT :=
                    (STEPPING_PORT s AND NOT (DIRECTION_MASK cfg OR STEP_MASK cfg))
                      OR out_bits (st s)\<rparr>;
             s = s\<lparr>TCNT0 := step_pulse_time (st s)\<rparr>;
             s = s\<lparr>TCCR0B := push_bit CS21 1\<rparr>
         in s)
      else s)"

text \<open>
  Lines 244 to 269: the counters are reset for a new planner block. The shift of
  \<open>step_event_count\<close> is the arithmetic shift of an \<open>int32_t\<close>.
\<close>

definition isr_load_block ::
  "config \<Rightarrow> ('p, 'f) extern \<Rightarrow> ('p, 'f) globals \<Rightarrow> ('p, 'f) globals option" where
  "isr_load_block cfg ext s =
     (let s = s\<lparr>pl_current_block := plan_get_current_block ext (planner s)\<rparr>;
          s = s\<lparr>st_current_data :=
                 Some (unat (st_data_index (segment_buffer s ! unat (segment_buffer_tail s))))\<rparr>
      in case pl_current_block s of
           None \<Rightarrow> None
         | Some b \<Rightarrow>
            (let s = s\<lparr>st := (st s)\<lparr>out_bits := direction_bits b XOR invert_mask (settings s)\<rparr>\<rparr>;
                 s = s\<lparr>st := (st s)\<lparr>execute_step := c_true\<rparr>\<rparr>;
                 s = s\<lparr>st := (st s)\<lparr>counter_x := signed_drop_bit 1 (step_event_count b)\<rparr>\<rparr>;
                 s = s\<lparr>st := (st s)\<lparr>counter_y := counter_x (st s)\<rparr>\<rparr>;
                 s = s\<lparr>st := (st s)\<lparr>counter_z := counter_x (st s)\<rparr>\<rparr>
             in case deref_data s (st_current_data s) of
                  None \<Rightarrow> None
                | Some d \<Rightarrow>
                   (let s = s\<lparr>st := (st s)\<lparr>counter_d := d_next d\<rparr>\<rparr>;
                        s = s\<lparr>st := (st s)\<lparr>delta_d := initial_rate d\<rparr>\<rparr>;
                        s = s\<lparr>st := (st s)\<lparr>ramp_type := RAMP_ACCEL\<rparr>\<rparr>;
                        s = s\<lparr>st := (st s)\<lparr>ramp_count :=
                               of_nat (ISR_TICKS_PER_ACCELERATION_TICK cfg div 2)\<rparr>\<rparr>
                    in if delta_d (st s) < MINIMUM_STEP_RATE cfg
                       then Some (s\<lparr>st := (st s)\<lparr>d_per_tick := MINIMUM_STEP_RATE cfg\<rparr>\<rparr>)
                       else Some (s\<lparr>st := (st s)\<lparr>d_per_tick := delta_d (st s)\<rparr>\<rparr>))))"

text \<open>Lines 274 to 281: a segment flagged for deceleration switches the ramp.\<close>

definition isr_check_decel :: "config \<Rightarrow> st_segment_t \<Rightarrow> stepper_t \<Rightarrow> stepper_t" where
  "isr_check_decel cfg seg t =
     (if flag seg = ST_DECEL \<or> flag seg = ST_DECEL_EOB then
        (let t = (if ramp_type t = RAMP_NOOP_CRUISE
                  then t\<lparr>ramp_count := of_nat (ISR_TICKS_PER_ACCELERATION_TICK cfg div 2)\<rparr>
                  else t\<lparr>ramp_count :=
                           of_nat (ISR_TICKS_PER_ACCELERATION_TICK cfg) - ramp_count t\<rparr>)
         in t\<lparr>ramp_type := RAMP_DECEL\<rparr>)
      else t)"

text \<open>Lines 237 to 283: load and initialise the next step segment.\<close>

definition isr_load ::
  "config \<Rightarrow> ('p, 'f) extern \<Rightarrow> ('p, 'f) globals \<Rightarrow> ('p, 'f) globals option" where
  "isr_load cfg ext s =
     (if unat (segment_buffer_tail s) < length (segment_buffer s) then
        (let s = s\<lparr>st_current_segment := Some (unat (segment_buffer_tail s))\<rparr>;
             s = s\<lparr>st := (st s)\<lparr>segment_steps_remaining :=
                    n_step (segment_buffer s ! unat (segment_buffer_tail s))\<rparr>\<rparr>
         in case (if load_flag (st s) = LOAD_BLOCK then isr_load_block cfg ext s else Some s) of
              None \<Rightarrow> None
            | Some s \<Rightarrow>
               (case deref_segment s (st_current_segment s) of
                  None \<Rightarrow> None
                | Some seg \<Rightarrow>
                   (let s = s\<lparr>st := isr_check_decel cfg seg (st s)\<rparr>
                    in Some (s\<lparr>st := (st s)\<lparr>load_flag := LOAD_NOOP\<rparr>\<rparr>))))
      else None)"

text \<open>
  Lines 208 to 292: the guard against re-entry, the pulse, and the attempt to pop a
  segment. With nothing in the buffer the handler goes idle, flags the cycle stop and
  returns.
\<close>

definition isr_entry ::
  "config \<Rightarrow> ('p, 'f) extern \<Rightarrow> ('p, 'f) globals \<Rightarrow> ('p, 'f) globals flow option" where
  "isr_entry cfg ext s =
     (if busy s \<noteq> 0 then Some (Return s)
      else
        (let s = isr_pulse cfg s;
             s = s\<lparr>busy := c_true\<rparr>
         in if load_flag (st s) \<noteq> LOAD_NOOP then
              (if segment_buffer_head s \<noteq> segment_buffer_tail s
               then map_option Continue (isr_load cfg ext s)
               else
                 (let s = st_go_idle cfg s;
                      s = s\<lparr>sys := (sys s)\<lparr>sys_execute :=
                             sys_execute (sys s) OR EXEC_CYCLE_STOP cfg\<rparr>\<rparr>
                  in Some (Return s)))
            else Some (Continue s)))"

text \<open>Lines 299 to 319: the step rate is adjusted when the ramp counter has run out.\<close>

definition ramp_adjust :: "config \<Rightarrow> 'f st_data_t \<Rightarrow> stepper_t \<Rightarrow> stepper_t" where
  "ramp_adjust cfg d t =
     (let t =
        (if ramp_type t = RAMP_ACCEL then
           (let t = t\<lparr>delta_d := delta_d t + rate_delta d\<rparr>
            in if delta_d t \<ge> nominal_rate d
               then (t\<lparr>delta_d := nominal_rate d\<rparr>)\<lparr>ramp_type := RAMP_NOOP_CRUISE\<rparr>
               else t)
         else
           (if delta_d t > rate_delta d
            then t\<lparr>delta_d := delta_d t - rate_delta d\<rparr>
            else t\<lparr>delta_d := drop_bit 1 (delta_d t)\<rparr>))
      in if delta_d t < MINIMUM_STEP_RATE cfg
         then t\<lparr>d_per_tick := MINIMUM_STEP_RATE cfg\<rparr>
         else t\<lparr>d_per_tick := delta_d t\<rparr>)"

text \<open>Lines 295 to 321: tick the acceleration ramp counter.\<close>

definition isr_ramp :: "config \<Rightarrow> ('p, 'f) globals \<Rightarrow> ('p, 'f) globals option" where
  "isr_ramp cfg s =
     (if ramp_type (st s) \<noteq> 0 then
        (let s = s\<lparr>st := (st s)\<lparr>ramp_count := ramp_count (st s) - 1\<rparr>\<rparr>
         in if ramp_count (st s) = 0 then
              (let s = s\<lparr>st := (st s)\<lparr>ramp_count :=
                            of_nat (ISR_TICKS_PER_ACCELERATION_TICK cfg)\<rparr>\<rparr>
               in case deref_data s (st_current_data s) of
                    None \<Rightarrow> None
                  | Some d \<Rightarrow> Some (s\<lparr>st := ramp_adjust cfg d (st s)\<rparr>))
            else Some s)
      else Some s)"

text \<open>Line 324: iterate the inverse time counter.\<close>

definition isr_integrate :: "('p, 'f) globals \<Rightarrow> ('p, 'f) globals" where
  "isr_integrate s = s\<lparr>st := (st s)\<lparr>counter_d := counter_d (st s) - d_per_tick (st s)\<rparr>\<rparr>"

text \<open>
  Lines 334 to 354 repeat one block of code for the three axes. The block is written
  once, as a function of the axis counter, the output bits and the axis position; the
  step event applies it to X, Y and Z in turn.
\<close>

definition bresenham_axis ::
  "nat \<Rightarrow> nat \<Rightarrow> int32_t \<Rightarrow> int32_t \<Rightarrow> int32_t \<times> uint8_t \<times> int32_t
     \<Rightarrow> int32_t \<times> uint8_t \<times> int32_t" where
  "bresenham_axis step_bit direction_bit axis_steps event_count = (\<lambda>(counter, bits, pos).
     (let counter = counter - axis_steps
      in if counter <s 0 then
           (let bits = bits OR push_bit step_bit 1;
                counter = counter + event_count
            in if bits AND push_bit direction_bit 1 \<noteq> 0
               then (counter, bits, pos - 1)
               else (counter, bits, pos + 1))
         else (counter, bits, pos)))"

definition bresenham_x ::
  "config \<Rightarrow> 'f plan_block_t \<Rightarrow> ('p, 'f) globals \<Rightarrow> ('p, 'f) globals" where
  "bresenham_x cfg b s =
     (case bresenham_axis (X_STEP_BIT cfg) (X_DIRECTION_BIT cfg) (steps b X_AXIS)
             (step_event_count b) (counter_x (st s), out_bits (st s), sys_position (sys s) X_AXIS) of
        (counter, bits, pos) \<Rightarrow>
          s\<lparr>st := (st s)\<lparr>counter_x := counter, out_bits := bits\<rparr>,
            sys := (sys s)\<lparr>sys_position := (sys_position (sys s))(X_AXIS := pos)\<rparr>\<rparr>)"

definition bresenham_y ::
  "config \<Rightarrow> 'f plan_block_t \<Rightarrow> ('p, 'f) globals \<Rightarrow> ('p, 'f) globals" where
  "bresenham_y cfg b s =
     (case bresenham_axis (Y_STEP_BIT cfg) (Y_DIRECTION_BIT cfg) (steps b Y_AXIS)
             (step_event_count b) (counter_y (st s), out_bits (st s), sys_position (sys s) Y_AXIS) of
        (counter, bits, pos) \<Rightarrow>
          s\<lparr>st := (st s)\<lparr>counter_y := counter, out_bits := bits\<rparr>,
            sys := (sys s)\<lparr>sys_position := (sys_position (sys s))(Y_AXIS := pos)\<rparr>\<rparr>)"

definition bresenham_z ::
  "config \<Rightarrow> 'f plan_block_t \<Rightarrow> ('p, 'f) globals \<Rightarrow> ('p, 'f) globals" where
  "bresenham_z cfg b s =
     (case bresenham_axis (Z_STEP_BIT cfg) (Z_DIRECTION_BIT cfg) (steps b Z_AXIS)
             (step_event_count b) (counter_z (st s), out_bits (st s), sys_position (sys s) Z_AXIS) of
        (counter, bits, pos) \<Rightarrow>
          s\<lparr>st := (st s)\<lparr>counter_z := counter, out_bits := bits\<rparr>,
            sys := (sys s)\<lparr>sys_position := (sys_position (sys s))(Z_AXIS := pos)\<rparr>\<rparr>)"

text \<open>Lines 362 to 370: the segment is complete; discard it, and its block if it was the last.\<close>

definition isr_segment_done ::
  "('p, 'f) extern \<Rightarrow> ('p, 'f) globals \<Rightarrow> ('p, 'f) globals option" where
  "isr_segment_done ext s =
     (case deref_segment s (st_current_segment s) of
        None \<Rightarrow> None
      | Some seg \<Rightarrow>
         (let s = (if flag seg = ST_END_OF_BLOCK \<or> flag seg = ST_DECEL_EOB then
                     (let s = s\<lparr>planner := plan_discard_current_block ext (planner s)\<rparr>
                      in s\<lparr>st := (st s)\<lparr>load_flag := LOAD_BLOCK\<rparr>\<rparr>)
                   else s\<lparr>st := (st s)\<lparr>load_flag := LOAD_LINE\<rparr>\<rparr>)
          in Some (s\<lparr>segment_buffer_tail := next_block_index (segment_buffer_tail s)\<rparr>)))"

text \<open>
  Lines 328 to 357: the inverse time counter is reloaded, the output bits are reset to
  the direction bits, the three axes are traced and the step event is counted.
\<close>

definition isr_step_move ::
  "config \<Rightarrow> 'f st_data_t \<Rightarrow> 'f plan_block_t \<Rightarrow> ('p, 'f) globals \<Rightarrow> ('p, 'f) globals" where
  "isr_step_move cfg d b s =
     (let s = s\<lparr>st := (st s)\<lparr>counter_d := counter_d (st s) + d_next d\<rparr>\<rparr>;
          s = s\<lparr>st := (st s)\<lparr>out_bits := direction_bits b\<rparr>\<rparr>;
          s = s\<lparr>st := (st s)\<lparr>execute_step := c_true\<rparr>\<rparr>;
          s = bresenham_x cfg b s;
          s = bresenham_y cfg b s;
          s = bresenham_z cfg b s
      in s\<lparr>st := (st s)\<lparr>segment_steps_remaining := segment_steps_remaining (st s) - 1\<rparr>\<rparr>)"

text \<open>Lines 328 to 378: the Bresenham step event.\<close>

definition isr_step_event ::
  "config \<Rightarrow> ('p, 'f) extern \<Rightarrow> ('p, 'f) globals \<Rightarrow> ('p, 'f) globals option" where
  "isr_step_event cfg ext s =
     (case deref_data s (st_current_data s) of
        None \<Rightarrow> None
      | Some d \<Rightarrow>
         (case pl_current_block s of
            None \<Rightarrow> None
          | Some b \<Rightarrow>
             (let s = isr_step_move cfg d b s
              in case (if segment_steps_remaining (st s) = 0
                       then isr_segment_done ext s else Some s) of
                   None \<Rightarrow> None
                 | Some s \<Rightarrow>
                    Some (s\<lparr>st := (st s)\<lparr>out_bits :=
                             out_bits (st s) XOR invert_mask (settings s)\<rparr>\<rparr>))))"

text \<open>Lines 295 to 380: what the handler does once a segment is loaded.\<close>

definition isr_run ::
  "config \<Rightarrow> ('p, 'f) extern \<Rightarrow> ('p, 'f) globals \<Rightarrow> ('p, 'f) globals option" where
  "isr_run cfg ext s =
     (case isr_ramp cfg s of
        None \<Rightarrow> None
      | Some s \<Rightarrow>
         (let s = isr_integrate s
          in case (if counter_d (st s) <s 0 then isr_step_event cfg ext s else Some s) of
               None \<Rightarrow> None
             | Some s \<Rightarrow> Some (s\<lparr>busy := c_false\<rparr>)))"

definition isr ::
  "config \<Rightarrow> ('p, 'f) extern \<Rightarrow> ('p, 'f) globals \<Rightarrow> ('p, 'f) globals option" where
  "isr cfg ext s =
     (case isr_entry cfg ext s of
        None \<Rightarrow> None
      | Some (Return s) \<Rightarrow> Some s
      | Some (Continue s) \<Rightarrow> isr_run cfg ext s)"

section \<open>Preparing the segment buffer, \<open>st_prep_buffer\<close>\<close>

text \<open>
  Lines 571 to 628: one slice of the staged block. The number of steps starts from the
  chunk size (the source assigns the constant 250), is truncated to the steps that remain
  in the block and to the steps before the deceleration point, and is taken off both
  counters. The flag is chosen between the two subtractions, so it tests
  \<open>step_events_remaining\<close> after its subtraction and \<open>decelerate_after\<close> before.
  A \<open>uint8_t\<close> compared with an \<open>int32_t\<close> is promoted, and the comparison is signed.
\<close>

definition prep_slice ::
  "uint8_t \<Rightarrow> st_segment_t \<times> 'f st_data_t \<Rightarrow> st_segment_t \<times> 'f st_data_t" where
  "prep_slice chunk = (\<lambda>(seg, d).
     (let seg = seg\<lparr>n_step := chunk\<rparr>;
          seg = (if step_events_remaining d <s ucast (n_step seg)
                 then seg\<lparr>n_step := ucast (step_events_remaining d)\<rparr> else seg);
          seg = (if 0 <s decelerate_after d then
                   (if decelerate_after d <s ucast (n_step seg)
                    then seg\<lparr>n_step := ucast (decelerate_after d)\<rparr> else seg)
                 else seg);
          d = d\<lparr>step_events_remaining := step_events_remaining d - ucast (n_step seg)\<rparr>;
          seg = (if step_events_remaining d = 0 then
                   (if decelerate_after d = 0
                    then seg\<lparr>flag := ST_DECEL_EOB\<rparr> else seg\<lparr>flag := ST_END_OF_BLOCK\<rparr>)
                 else
                   (if decelerate_after d = 0
                    then seg\<lparr>flag := ST_DECEL\<rparr> else seg\<lparr>flag := ST_NOOP\<rparr>));
          d = d\<lparr>decelerate_after := decelerate_after d - ucast (n_step seg)\<rparr>
      in (seg, d)))"

definition N_STEP_CHUNK :: uint8_t where "N_STEP_CHUNK = 250"

text \<open>Lines 523 to 547: the data shared by the segments of a newly staged block.\<close>

definition prep_load_block ::
  "('p, 'f) extern \<Rightarrow> 'f plan_block_t \<Rightarrow> ('p, 'f) globals \<Rightarrow> ('p, 'f) globals option" where
  "prep_load_block ext b s =
     (let s = s\<lparr>st_data_prep_index := next_block_index (st_data_prep_index s)\<rparr>;
          i = unat (st_data_prep_index s);
          s = s\<lparr>st_prep_data := Some i\<rparr>
      in if i < length (segment_data s) then
           (let d = segment_data s ! i;
                d = d\<lparr>step_events_remaining := step_event_count b\<rparr>;
                d = d\<lparr>initial_rate := initial_rate_of ext (entry_speed_sqr b)\<rparr>;
                d = d\<lparr>nominal_rate := nominal_rate_of ext (nominal_speed_sqr b)\<rparr>;
                d = d\<lparr>rate_delta := rate_delta_of ext (acceleration b)\<rparr>;
                d = d\<lparr>d_next := d_next_of ext (millimeters b) (step_event_count b)\<rparr>;
                d = d\<lparr>mm_per_step := mm_per_step_of ext (millimeters b) (step_event_count b)\<rparr>;
                d = d\<lparr>decelerate_after :=
                       calculate_trapezoid_for_block ext (planner s) (pl_prep_index s)\<rparr>
            in Some (s\<lparr>segment_data := (segment_data s)[i := d]\<rparr>))
         else None)"

text \<open>Lines 567 to 638: one segment is written at the head of the buffer and published.\<close>

definition prep_segment :: "('p, 'f) globals \<Rightarrow> ('p, 'f) globals option" where
  "prep_segment s =
     (let h = unat (segment_buffer_head s)
      in if h < length (segment_buffer s) then
           (case st_prep_data s of
              None \<Rightarrow> None
            | Some i \<Rightarrow>
               if i < length (segment_data s) then
                 (case prep_slice N_STEP_CHUNK
                         ((segment_buffer s ! h)\<lparr>st_data_index := st_data_prep_index s\<rparr>,
                          segment_data s ! i) of
                    (seg, d) \<Rightarrow>
                      (let s = s\<lparr>segment_buffer := (segment_buffer s)[h := seg],
                                 segment_data := (segment_data s)[i := d]\<rparr>;
                           s = (if step_events_remaining d = 0 then
                                  (let s = s\<lparr>pl_prep_index := next_block_pl_index (pl_prep_index s)\<rparr>;
                                       s = s\<lparr>pl_prep_block := None\<rparr>
                                   in s\<lparr>serial_out := serial_out s @ [PrintString ''EOB'']\<rparr>)
                                else s\<lparr>serial_out := serial_out s @ [PrintString ''x'']\<rparr>);
                           s = s\<lparr>segment_buffer_head := segment_next_head s\<rparr>;
                           s = s\<lparr>segment_next_head := next_block_index (segment_buffer_head s)\<rparr>
                       in Some (s\<lparr>serial_out := serial_out s @
                                  [PrintInteger (uint (n_step seg)), PrintString '' '',
                                   PrintInteger (sint (decelerate_after d)), PrintString '' '',
                                   PrintInteger (sint (step_events_remaining d))]\<rparr>)))
               else None)
         else None)"

text \<open>
  Lines 517 to 638: the body of the loop of \<open>st_prep_buffer\<close>. It returns from the
  function when the planner has no block to stage.
\<close>

definition st_prep_body ::
  "('p, 'f) extern \<Rightarrow> ('p, 'f) globals \<Rightarrow> ('p, 'f) globals flow option" where
  "st_prep_body ext s =
     (case (if pl_prep_block s = None then
              (let s = s\<lparr>pl_prep_block :=
                          plan_get_block_by_index ext (planner s) (pl_prep_index s)\<rparr>
               in case pl_prep_block s of
                    None \<Rightarrow> Some (Return s)
                  | Some b \<Rightarrow> map_option Continue (prep_load_block ext b s))
            else Some (Continue s)) of
        None \<Rightarrow> None
      | Some (Return s) \<Rightarrow> Some (Return s)
      | Some (Continue s) \<Rightarrow> map_option Continue (prep_segment s))"

text \<open>
  The loop itself, when no interrupt comes in between. Its guard compares the tail of the
  buffer with the index after the head. The first argument bounds the number of
  iterations: \<open>None\<close> is undefined behaviour or a loop that has not ended within the bound.
\<close>

fun st_prep_buffer ::
  "nat \<Rightarrow> ('p, 'f) extern \<Rightarrow> ('p, 'f) globals \<Rightarrow> ('p, 'f) globals option" where
  "st_prep_buffer 0 ext s = None"
| "st_prep_buffer (Suc fuel) ext s =
     (if segment_buffer_tail s \<noteq> segment_next_head s then
        (case st_prep_body ext s of
           None \<Rightarrow> None
         | Some (Return s) \<Rightarrow> Some s
         | Some (Continue s) \<Rightarrow> st_prep_buffer fuel ext s)
      else Some s)"

section \<open>A concrete machine\<close>

text \<open>
  The values Grbl gives the macros, a planner that keeps its blocks in a ring of 18
  slots, and the state of the statics when the program starts (all zero). They give
  the theorems below concrete inputs.
\<close>

definition grbl_config :: config where
  "grbl_config =
     \<lparr>ISR_TICKS_PER_ACCELERATION_TICK = 250, MINIMUM_STEP_RATE = 1000,
      X_STEP_BIT = 2, Y_STEP_BIT = 3, Z_STEP_BIT = 4,
      X_DIRECTION_BIT = 5, Y_DIRECTION_BIT = 6, Z_DIRECTION_BIT = 7,
      STEPPERS_DISABLE_BIT = 0, EXEC_CYCLE_STOP = 4, EXEC_ALARM = 32,
      BITFLAG_INVERT_ST_ENABLE = 4\<rparr>"

record ring_planner =
  block_buffer :: "(nat plan_block_t \<times> int32_t) option list"
  block_buffer_tail :: uint8_t

definition ring_block :: "ring_planner \<Rightarrow> uint8_t \<Rightarrow> (nat plan_block_t \<times> int32_t) option" where
  "ring_block p i =
     (if unat i < length (block_buffer p) then block_buffer p ! unat i else None)"

definition ring_extern :: "(ring_planner, nat) extern" where
  "ring_extern =
     \<lparr>plan_get_current_block = (\<lambda>p. map_option fst (ring_block p (block_buffer_tail p))),
      plan_discard_current_block =
        (\<lambda>p. p\<lparr>block_buffer := (block_buffer p)[unat (block_buffer_tail p) := None],
                 block_buffer_tail := next_block_pl_index (block_buffer_tail p)\<rparr>),
      plan_get_block_by_index = (\<lambda>p i. map_option fst (ring_block p i)),
      calculate_trapezoid_for_block =
        (\<lambda>p i. case ring_block p i of None \<Rightarrow> 0 | Some x \<Rightarrow> snd x),
      initial_rate_of = of_nat,
      nominal_rate_of = of_nat,
      rate_delta_of = of_nat,
      d_next_of = (\<lambda>mm n. of_nat mm),
      mm_per_step_of = (\<lambda>mm n. mm)\<rparr>"

definition data_zero :: "nat st_data_t" where
  "data_zero =
     \<lparr>step_events_remaining = 0, d_next = 0, initial_rate = 0, nominal_rate = 0,
      rate_delta = 0, decelerate_after = 0, mm_per_step = 0\<rparr>"

definition segment_zero :: st_segment_t where
  "segment_zero = \<lparr>n_step = 0, st_data_index = 0, flag = 0\<rparr>"

definition power_on :: "ring_planner \<Rightarrow> (ring_planner, nat) globals" where
  "power_on p =
     \<lparr>st = st_zero,
      segment_data = replicate 10 data_zero,
      segment_buffer = replicate 10 segment_zero,
      segment_buffer_tail = 0, segment_buffer_head = 0, segment_next_head = 0,
      busy = 0,
      pl_current_block = None, st_current_segment = None, st_current_data = None,
      pl_prep_block = None, pl_prep_index = 0, st_prep_data = None, st_data_prep_index = 0,
      STEPPING_PORT = 0, STEPPERS_DISABLE_PORT = 0, TCNT0 = 0, TCCR0B = 0, TIMSK2 = 0,
      TCCR2B = 0,
      delay_ms_calls = [], serial_out = [],
      sys = \<lparr>sys_position = (\<lambda>a. 0), sys_execute = 0\<rparr>,
      settings = \<lparr>invert_mask = 0, stepper_idle_lock_time = 25, settings_flags = 0\<rparr>,
      planner = p\<rparr>"

text \<open>A block of three step events and states built around it.\<close>

definition sample_block :: "nat plan_block_t" where
  "sample_block =
     \<lparr>direction_bits = 0x20,
      steps = (\<lambda>a. case a of X_AXIS \<Rightarrow> 3 | Y_AXIS \<Rightarrow> 1 | Z_AXIS \<Rightarrow> 0),
      step_event_count = 3, entry_speed_sqr = 0, nominal_speed_sqr = 5000,
      acceleration = 100, millimeters = 1\<rparr>"

definition sample_planner :: ring_planner where
  "sample_planner =
     \<lparr>block_buffer = (replicate 18 None)[0 := Some (sample_block, 2)],
      block_buffer_tail = 0\<rparr>"

definition busy_state :: "(ring_planner, nat) globals" where
  "busy_state =
     (power_on sample_planner)
       \<lparr>busy := c_true, st := st_zero\<lparr>execute_step := c_true, out_bits := 4\<rparr>\<rparr>"

definition empty_state :: "(ring_planner, nat) globals" where
  "empty_state =
     (st_reset (power_on sample_planner))
       \<lparr>st := st_zero\<lparr>load_flag := LOAD_BLOCK, execute_step := c_true, out_bits := 0x24\<rparr>\<rparr>"

definition pushed_state :: "(ring_planner, nat) globals" where
  "pushed_state =
     (power_on sample_planner)\<lparr>segment_buffer_head := 2, segment_next_head := 3\<rparr>"

text \<open>The machine after reset and the preparation of the sample block.\<close>

definition sample_prepped :: "(ring_planner, nat) globals" where
  "sample_prepped =
     (st_reset (power_on sample_planner))
       \<lparr>segment_buffer :=
          (replicate 10 segment_zero)
            [0 := \<lparr>n_step = 2, st_data_index = 1, flag = ST_NOOP\<rparr>,
             1 := \<lparr>n_step = 1, st_data_index = 1, flag = ST_DECEL_EOB\<rparr>],
        segment_data :=
          (replicate 10 data_zero)
            [1 := \<lparr>step_events_remaining = 0, d_next = 1, initial_rate = 0,
                   nominal_rate = 5000, rate_delta = 100, decelerate_after = - 1,
                   mm_per_step = 1\<rparr>],
        segment_buffer_head := 2, segment_next_head := 3,
        pl_prep_index := 1, st_prep_data := Some 1, st_data_prep_index := 1,
        serial_out :=
          [PrintString ''x'', PrintInteger 2, PrintString '' '', PrintInteger 0,
           PrintString '' '', PrintInteger 1, PrintString ''EOB'', PrintInteger 1,
           PrintString '' '', PrintInteger (- 1), PrintString '' '', PrintInteger 0]\<rparr>"

definition sample_data :: "nat st_data_t" where
  "sample_data = data_zero\<lparr>step_events_remaining := 3, decelerate_after := 2\<rparr>"

section \<open>The specification's wording of two rules\<close>

text \<open>
  The segment flag as the specification words it: both counters are tested after
  they have been decremented by the steps of the slice.
\<close>

definition segment_flag_spec :: "int32_t \<Rightarrow> int32_t \<Rightarrow> uint8_t" where
  "segment_flag_spec remaining decel =
     (if remaining = 0 then (if decel = 0 then ST_DECEL_EOB else ST_END_OF_BLOCK)
      else (if decel = 0 then ST_DECEL else ST_NOOP))"

text \<open>
  The deceleration of the rate as the specification words it: \<open>rate_delta\<close> is
  subtracted if it exceeds the current rate, otherwise the rate is halved.
\<close>

definition decel_rate_spec :: "uint32_t \<Rightarrow> uint32_t \<Rightarrow> uint32_t" where
  "decel_rate_spec rate delta = (if delta > rate then rate - delta else drop_bit 1 rate)"

section \<open>The slices of one block\<close>

text \<open>
  The loop body of \<open>st_prep_buffer\<close> is repeated on the data of the staged block until
  its \<open>step_events_remaining\<close> is zero, which is where the code clears \<open>pl_prep_block\<close>
  and stages the next block. \<open>prep_block\<close> collects the segments and the data after each
  slice. The chunk size of a slice is given by a policy that may look at the two
  counters; the policy of the source is the constant \<open>N_STEP_CHUNK\<close>. The first argument
  bounds the number of slices, and \<open>None\<close> says that the block was not finished within
  the bound.
\<close>

fun prep_block ::
  "nat \<Rightarrow> (int32_t \<Rightarrow> int32_t \<Rightarrow> uint8_t) \<Rightarrow> st_segment_t \<Rightarrow> 'f st_data_t
     \<Rightarrow> (st_segment_t \<times> 'f st_data_t) list option" where
  "prep_block 0 policy seg d = None"
| "prep_block (Suc fuel) policy seg d =
     (case prep_slice (policy (step_events_remaining d) (decelerate_after d)) (seg, d) of
        (seg', d') \<Rightarrow>
          if step_events_remaining d' = 0 then Some [(seg', d')]
          else map_option ((#) (seg', d')) (prep_block fuel policy seg d'))"

definition end_of_block_flag :: "uint8_t \<Rightarrow> bool" where
  "end_of_block_flag f = (f = ST_END_OF_BLOCK \<or> f = ST_DECEL_EOB)"

text \<open>
  What relates the data before a slice to the segment and the data after it, along
  the list of slices of a block.
\<close>

fun slice_chain :: "'f st_data_t \<Rightarrow> (st_segment_t \<times> 'f st_data_t) list \<Rightarrow> bool" where
  "slice_chain d [] = True"
| "slice_chain d (x # rest) =
     (0 < uint (n_step (fst x))
      \<and> uint (n_step (fst x)) \<le> sint (step_events_remaining d)
      \<and> sint (step_events_remaining (snd x)) =
          sint (step_events_remaining d) - uint (n_step (fst x))
      \<and> sint (decelerate_after (snd x)) = sint (decelerate_after d) - uint (n_step (fst x))
      \<and> (0 < sint (decelerate_after d) \<longrightarrow> uint (n_step (fst x)) \<le> sint (decelerate_after d))
      \<and> flag (fst x) = segment_flag_spec (step_events_remaining (snd x)) (decelerate_after d)
      \<and> (rest = [] \<longleftrightarrow> step_events_remaining (snd x) = 0)
      \<and> slice_chain (snd x) rest)"

section \<open>Schedules of the producer and the consumer\<close>

text \<open>
  \<open>st_prep_buffer\<close> runs in the main program and the interrupt can come between any two
  of its statements. The only variable written by the interrupt that the loop reads is
  the tail of the buffer, in its guard; and the interrupt reads nothing that the body
  writes before the body publishes the new head. So a schedule is a list of actions: a
  tick of the interrupt, the evaluation of the guard of the loop, or the body of the
  loop.
\<close>

datatype action = Tick | PrepGuard | PrepBody





section \<open>The execution of one planner block\<close>

text \<open>
  Whether the tick that starts in a state executes a step event: the handler gets past
  its entry, and after the ramp and the subtraction of the rate the inverse time counter
  is negative (line 327).
\<close>

definition step_event_due :: "config \<Rightarrow> ('p, 'f) extern \<Rightarrow> ('p, 'f) globals \<Rightarrow> bool" where
  "step_event_due cfg ext s =
     (case isr_entry cfg ext s of
        Some (Continue s1) \<Rightarrow>
          (case isr_ramp cfg s1 of
             Some s2 \<Rightarrow> counter_d (st (isr_integrate s2)) <s 0
           | None \<Rightarrow> False)
      | _ \<Rightarrow> False)"

text \<open>The output bits and the counter that belong to an axis.\<close>

definition axis_step_bit :: "config \<Rightarrow> axis \<Rightarrow> nat" where
  "axis_step_bit cfg a =
     (case a of X_AXIS \<Rightarrow> X_STEP_BIT cfg | Y_AXIS \<Rightarrow> Y_STEP_BIT cfg | Z_AXIS \<Rightarrow> Z_STEP_BIT cfg)"

definition axis_direction_bit :: "config \<Rightarrow> axis \<Rightarrow> nat" where
  "axis_direction_bit cfg a =
     (case a of X_AXIS \<Rightarrow> X_DIRECTION_BIT cfg | Y_AXIS \<Rightarrow> Y_DIRECTION_BIT cfg
      | Z_AXIS \<Rightarrow> Z_DIRECTION_BIT cfg)"

definition axis_counter :: "axis \<Rightarrow> stepper_t \<Rightarrow> int32_t" where
  "axis_counter a t =
     (case a of X_AXIS \<Rightarrow> counter_x t | Y_AXIS \<Rightarrow> counter_y t | Z_AXIS \<Rightarrow> counter_z t)"

text \<open>
  Whether the output bits left by a step event hold a step pulse for an axis. The
  invert mask that line 378 applies is taken off again.
\<close>

definition step_latched :: "config \<Rightarrow> axis \<Rightarrow> ('p, 'f) globals \<Rightarrow> bool" where
  "step_latched cfg a s =
     ((out_bits (st s) XOR invert_mask (settings s)) AND push_bit (axis_step_bit cfg a) 1 \<noteq> 0)"

text \<open>
  A tick that executes a step event adds one to the number of step events and, for each
  axis with a pulse in the output bits, one to the number of pulses of the axis.
\<close>

definition count_tick ::
  "config \<Rightarrow> ('p, 'f) extern \<Rightarrow> ('p, 'f) globals \<Rightarrow> ('p, 'f) globals
     \<Rightarrow> nat \<times> (axis \<Rightarrow> nat) \<Rightarrow> nat \<times> (axis \<Rightarrow> nat)" where
  "count_tick cfg ext s s' = (\<lambda>(events, pulses).
     if step_event_due cfg ext s
     then (events + 1, (\<lambda>a. if step_latched cfg a s' then pulses a + 1 else pulses a))
     else (events, pulses))"

text \<open>
  \<open>block_exec\<close> runs a schedule inside the execution of one block: the interrupt is
  not entered again once \<open>load_flag\<close> is \<open>LOAD_BLOCK\<close>, which is where the next block
  would be loaded. The bodies of the producer's loop may come at any point. The run
  keeps the number of step events and of step pulses per axis.
\<close>

fun block_exec ::
  "config \<Rightarrow> ('p, 'f) extern \<Rightarrow> action list \<Rightarrow> (nat \<times> (axis \<Rightarrow> nat)) \<times> ('p, 'f) globals
     \<Rightarrow> ((nat \<times> (axis \<Rightarrow> nat)) \<times> ('p, 'f) globals) option" where
  "block_exec cfg ext [] x = Some x"
| "block_exec cfg ext (Tick # as) (c, s) =
     (if load_flag (st s) = LOAD_BLOCK then None
      else
        (case isr cfg ext s of
           None \<Rightarrow> None
         | Some s' \<Rightarrow> block_exec cfg ext as (count_tick cfg ext s s' c, s')))"
| "block_exec cfg ext (PrepGuard # as) (c, s) = block_exec cfg ext as (c, s)"
| "block_exec cfg ext (PrepBody # as) (c, s) =
     (case st_prep_body ext s of
        None \<Rightarrow> None
      | Some (Return s') \<Rightarrow> block_exec cfg ext as (c, s')
      | Some (Continue s') \<Rightarrow> block_exec cfg ext as (c, s'))"

text \<open>
  \<open>block_start\<close> is the execution of a block from the tick that loads it: the handler
  is not busy, \<open>load_flag\<close> is \<open>LOAD_BLOCK\<close> and the buffer holds a segment. The rest of
  the schedule follows that tick.
\<close>

definition block_start ::
  "config \<Rightarrow> ('p, 'f) extern \<Rightarrow> action list \<Rightarrow> ('p, 'f) globals
     \<Rightarrow> ((nat \<times> (axis \<Rightarrow> nat)) \<times> ('p, 'f) globals) option" where
  "block_start cfg ext acts s =
     (if busy s = 0 \<and> load_flag (st s) = LOAD_BLOCK
         \<and> segment_buffer_head s \<noteq> segment_buffer_tail s then
        (case isr cfg ext s of
           None \<Rightarrow> None
         | Some s' \<Rightarrow> block_exec cfg ext acts (count_tick cfg ext s s' (0, (\<lambda>a. 0)), s'))
      else None)"

text \<open>Whether the segment the interrupt is executing is the last of its block.\<close>

definition current_segment_ends_block :: "('p, 'f) globals \<Rightarrow> bool" where
  "current_segment_ends_block s =
     (case deref_segment s (st_current_segment s) of
        Some seg \<Rightarrow> end_of_block_flag (flag seg)
      | None \<Rightarrow> False)"

text \<open>
  A block as the planner queues it: at least one step event, and on each axis a number
  of steps between zero and the number of step events.
\<close>

definition block_ok :: "'f plan_block_t \<Rightarrow> bool" where
  "block_ok b =
     (0 < sint (step_event_count b)
      \<and> (\<forall>a. 0 \<le> sint (steps b a) \<and> sint (steps b a) \<le> sint (step_event_count b)))"

text \<open>The six step and direction bits are different bits of the 8-bit port.\<close>

definition pins_ok :: "config \<Rightarrow> bool" where
  "pins_ok cfg =
     (distinct [X_STEP_BIT cfg, Y_STEP_BIT cfg, Z_STEP_BIT cfg,
                X_DIRECTION_BIT cfg, Y_DIRECTION_BIT cfg, Z_DIRECTION_BIT cfg]
      \<and> X_STEP_BIT cfg < 8 \<and> Y_STEP_BIT cfg < 8 \<and> Z_STEP_BIT cfg < 8
      \<and> X_DIRECTION_BIT cfg < 8 \<and> Y_DIRECTION_BIT cfg < 8 \<and> Z_DIRECTION_BIT cfg < 8)"

text \<open>
  What the execution of a block keeps true between its ticks, for a block \<open>b\<close> and the
  positions \<open>p0\<close> at which it started: after \<open>events\<close> step events with \<open>pulses a\<close>
  steps on axis \<open>a\<close>, the counter of the axis is half the number of step events of the
  block, minus the steps of the axis times the events so far, plus the number of step
  events times the pulses so far; it lies between zero and the number of step events;
  and the position of the axis has moved by the pulses in the direction of the block.
\<close>

definition tracer_inv ::
  "config \<Rightarrow> 'f plan_block_t \<Rightarrow> (axis \<Rightarrow> int32_t)
     \<Rightarrow> (nat \<times> (axis \<Rightarrow> nat)) \<times> ('p, 'f) globals \<Rightarrow> bool" where
  "tracer_inv cfg b p0 = (\<lambda>((events, pulses), s).
     pl_current_block s = Some b
     \<and> (\<forall>a. sint (axis_counter a (st s)) =
               sint (step_event_count b) div 2 - int events * sint (steps b a)
                 + int (pulses a) * sint (step_event_count b)
            \<and> 0 \<le> sint (axis_counter a (st s))
            \<and> sint (axis_counter a (st s)) < sint (step_event_count b)
            \<and> sys_position (sys s) a =
                 (if direction_bits b AND push_bit (axis_direction_bit cfg a) 1 \<noteq> 0
                  then p0 a - of_nat (pulses a) else p0 a + of_nat (pulses a))))"

section \<open>Frame lemmas\<close>

lemma st_go_idle_frame:
  "st (st_go_idle cfg s) = st s"
  "sys (st_go_idle cfg s) = sys s"
  "segment_buffer_head (st_go_idle cfg s) = segment_buffer_head s"
  "segment_buffer_tail (st_go_idle cfg s) = segment_buffer_tail s"
  "segment_next_head (st_go_idle cfg s) = segment_next_head s"
  "STEPPING_PORT (st_go_idle cfg s) = STEPPING_PORT s"
  "busy (st_go_idle cfg s) = 0"
  "TCCR2B (st_go_idle cfg s) = 0"
  "planner (st_go_idle cfg s) = planner s"
  "segment_buffer (st_go_idle cfg s) = segment_buffer s"
  "segment_data (st_go_idle cfg s) = segment_data s"
  "pl_current_block (st_go_idle cfg s) = pl_current_block s"
  by (simp_all add: st_go_idle_def Let_def c_false_def)

lemma isr_pulse_st: "st (isr_pulse cfg s) = (st s)\<lparr>execute_step := 0\<rparr>"
proof (cases "execute_step (st s) = 0")
  case True
  have "(st s)\<lparr>execute_step := execute_step (st s)\<rparr> = st s" by simp
  with True show ?thesis by (simp add: isr_pulse_def)
next
  case False
  then show ?thesis by (simp add: isr_pulse_def Let_def c_false_def)
qed

lemma isr_pulse_frame:
  "sys (isr_pulse cfg s) = sys s"
  "segment_buffer_head (isr_pulse cfg s) = segment_buffer_head s"
  "segment_buffer_tail (isr_pulse cfg s) = segment_buffer_tail s"
  "segment_next_head (isr_pulse cfg s) = segment_next_head s"
  "busy (isr_pulse cfg s) = busy s"
  "planner (isr_pulse cfg s) = planner s"
  "segment_buffer (isr_pulse cfg s) = segment_buffer s"
  "segment_data (isr_pulse cfg s) = segment_data s"
  "pl_current_block (isr_pulse cfg s) = pl_current_block s"
  "st_current_segment (isr_pulse cfg s) = st_current_segment s"
  "st_current_data (isr_pulse cfg s) = st_current_data s"
  "settings (isr_pulse cfg s) = settings s"
  by (simp_all add: isr_pulse_def Let_def c_false_def)



section \<open>Signed and unsigned readings of words\<close>

lemma sint32_diff:
  fixes a b :: "32 word"
  assumes "- (2 ^ 31) \<le> sint a - sint b" "sint a - sint b < 2 ^ 31"
  shows "sint (a - b) = sint a - sint b"
  using assms by (simp add: sint_word_ariths signed_take_bit_int_eq_self)

lemma sint32_sum:
  fixes a b :: "32 word"
  assumes "- (2 ^ 31) \<le> sint a + sint b" "sint a + sint b < 2 ^ 31"
  shows "sint (a + b) = sint a + sint b"
  using assms by (simp add: sint_word_ariths signed_take_bit_int_eq_self)

lemma uint8_bound: "uint (n :: 8 word) < 256"
  using uint_lt2p [of n] by simp

lemma sint_ucast8: "sint (ucast (n :: 8 word) :: 32 word) = uint n"
proof -
  have "uint n < 2 ^ 31" using uint8_bound [of n] by simp
  moreover have "- (2 ^ 31) \<le> uint n"
    by (rule order_trans [OF _ uint_nonnegative]) simp
  ultimately have "signed_take_bit 31 (uint n) = uint n"
    by (rule_tac signed_take_bit_int_eq_self)
  then show ?thesis by (simp add: signed_ucast_eq)
qed

lemma uint_of_sint32:
  fixes x :: "32 word"
  assumes "0 \<le> sint x"
  shows "uint x = sint x"
proof -
  have "sint x < 2 ^ 31" using sint_lt [of x] by simp
  then have "sint x < 2 ^ 32" by simp
  with assms show ?thesis by (simp add: uint_sint take_bit_int_eq_self)
qed

lemma uint_ucast32_8:
  fixes x :: "32 word"
  assumes "0 \<le> sint x" "sint x < 256"
  shows "uint (ucast x :: 8 word) = sint x"
proof -
  have "uint (ucast x :: 8 word) = take_bit 8 (uint x)"
    by (simp add: unsigned_ucast_eq)
  also have "\<dots> = take_bit 8 (sint x)" using assms(1) by (simp add: uint_of_sint32)
  also have "\<dots> = sint x" using assms by (simp add: take_bit_int_eq_self)
  finally show ?thesis .
qed

lemma sint32_zero_iff: "(x :: 32 word) = 0 \<longleftrightarrow> sint x = 0"
proof
  assume "x = 0"
  then show "sint x = 0" by simp
next
  assume "sint x = 0"
  then have "(word_of_int (sint x) :: 32 word) = word_of_int 0" by simp
  then show "x = 0" by simp
qed

section \<open>Arithmetic of the ring indices\<close>





section \<open>One slice\<close>

lemma uint8_pos: "(n :: 8 word) \<noteq> 0 \<Longrightarrow> 0 < uint n"
  by (simp add: word_neq_0_conv word_less_def)

lemma prep_slice_n_step:
  "n_step (fst (prep_slice chunk (seg, d))) =
     (let n1 = (if step_events_remaining d <s ucast chunk
                then ucast (step_events_remaining d) else chunk)
      in if 0 <s decelerate_after d \<and> decelerate_after d <s ucast n1
         then ucast (decelerate_after d) else n1)"
  by (simp add: prep_slice_def Let_def)

lemma prep_slice_data:
  "snd (prep_slice chunk (seg, d)) =
     d\<lparr>step_events_remaining :=
          step_events_remaining d - ucast (n_step (fst (prep_slice chunk (seg, d)))),
       decelerate_after :=
          decelerate_after d - ucast (n_step (fst (prep_slice chunk (seg, d))))\<rparr>"
  by (simp add: prep_slice_def Let_def)

lemma prep_slice_n_step_uint:
  assumes "0 < sint (step_events_remaining d)" and "chunk \<noteq> 0"
  shows "uint (n_step (fst (prep_slice chunk (seg, d)))) =
     (let n1 = min (sint (step_events_remaining d)) (uint chunk)
      in if 0 < sint (decelerate_after d) \<and> sint (decelerate_after d) < n1
         then sint (decelerate_after d) else n1)"
proof -
  let ?r = "step_events_remaining d" and ?a = "decelerate_after d"
  define n1 where "n1 = (if ?r <s ucast chunk then ucast ?r else chunk)"
  have c: "uint chunk < 256" by (rule uint8_bound)
  have n1: "uint n1 = min (sint ?r) (uint chunk)"
  proof (cases "sint ?r < uint chunk")
    case True
    then have "n1 = ucast ?r" by (simp add: n1_def word_sless_alt sint_ucast8)
    moreover have "uint (ucast ?r :: 8 word) = sint ?r"
      using True assms(1) c by (intro uint_ucast32_8) simp_all
    ultimately show ?thesis using True by simp
  next
    case False
    then have "n1 = chunk" by (simp add: n1_def word_sless_alt sint_ucast8)
    then show ?thesis using False by simp
  qed
  have n1b: "uint n1 < 256" by (rule uint8_bound)
  have n: "n_step (fst (prep_slice chunk (seg, d))) =
      (if 0 <s ?a \<and> ?a <s ucast n1 then ucast ?a else n1)"
    by (simp add: prep_slice_n_step Let_def n1_def)
  show ?thesis
  proof (cases "0 < sint ?a \<and> sint ?a < uint n1")
    case True
    then have "n_step (fst (prep_slice chunk (seg, d))) = ucast ?a"
      by (simp add: n word_sless_alt sint_ucast8)
    moreover have "uint (ucast ?a :: 8 word) = sint ?a"
      using True n1b by (intro uint_ucast32_8) simp_all
    ultimately show ?thesis using True n1 by (simp add: Let_def)
  next
    case False
    then have "n_step (fst (prep_slice chunk (seg, d))) = n1"
      by (auto simp: n word_sless_alt sint_ucast8)
    then show ?thesis using False n1 by (auto simp: Let_def)
  qed
qed

lemma prep_slice_step:
  assumes pos: "0 < sint (step_events_remaining d)" and ch: "chunk \<noteq> 0"
    and sl: "prep_slice chunk (seg, d) = (seg', d')"
  shows "0 < uint (n_step seg')"
    and "uint (n_step seg') \<le> sint (step_events_remaining d)"
    and "uint (n_step seg') \<le> uint chunk"
    and "sint (step_events_remaining d') = sint (step_events_remaining d) - uint (n_step seg')"
    and "0 < sint (decelerate_after d) \<Longrightarrow> uint (n_step seg') \<le> sint (decelerate_after d)"
    and "- (2 ^ 31) \<le> sint (decelerate_after d) - uint (n_step seg') \<Longrightarrow>
           sint (decelerate_after d') = sint (decelerate_after d) - uint (n_step seg')"
    and "flag seg' = segment_flag_spec (step_events_remaining d') (decelerate_after d)"
proof -
  let ?n = "uint (n_step seg')"
  have seg': "seg' = fst (prep_slice chunk (seg, d))" and d': "d' = snd (prep_slice chunk (seg, d))"
    using sl by simp_all
  have n: "?n = (let n1 = min (sint (step_events_remaining d)) (uint chunk)
      in if 0 < sint (decelerate_after d) \<and> sint (decelerate_after d) < n1
         then sint (decelerate_after d) else n1)"
    unfolding seg' by (rule prep_slice_n_step_uint [OF pos ch])
  have cpos: "0 < uint chunk" using ch by (rule uint8_pos)
  show a: "0 < ?n" using n pos cpos by (auto simp: Let_def min_def split: if_splits)
  show b: "?n \<le> sint (step_events_remaining d)"
    using n by (auto simp: Let_def min_def split: if_splits)
  show "?n \<le> uint chunk" using n by (auto simp: Let_def min_def split: if_splits)
  have nb: "?n < 256" by (rule uint8_bound)
  have rb: "sint (step_events_remaining d) < 2 ^ 31"
    using sint_lt [of "step_events_remaining d"] by simp
  have r': "step_events_remaining d' = step_events_remaining d - ucast (n_step seg')"
    unfolding d' seg' by (simp add: prep_slice_data)
  show "sint (step_events_remaining d') = sint (step_events_remaining d) - ?n"
    unfolding r' using a b rb by (subst sint32_diff) (simp_all add: sint_ucast8)
  show "0 < sint (decelerate_after d) \<Longrightarrow> ?n \<le> sint (decelerate_after d)"
    using n by (auto simp: Let_def min_def split: if_splits)
  have a': "decelerate_after d' = decelerate_after d - ucast (n_step seg')"
    unfolding d' seg' by (simp add: prep_slice_data)
  have ab: "sint (decelerate_after d) < 2 ^ 31"
    using sint_lt [of "decelerate_after d"] by simp
  show "sint (decelerate_after d') = sint (decelerate_after d) - ?n"
    if "- (2 ^ 31) \<le> sint (decelerate_after d) - ?n"
    unfolding a' using that a nb ab by (subst sint32_diff) (simp_all add: sint_ucast8)
  show "flag seg' = segment_flag_spec (step_events_remaining d') (decelerate_after d)"
    using sl by (auto simp: prep_slice_def Let_def segment_flag_spec_def)
qed

section \<open>The slices of a block\<close>

lemma prep_block_chain:
  assumes "0 < sint (step_events_remaining d)"
    and "- (2 ^ 31) \<le> sint (decelerate_after d) - sint (step_events_remaining d)"
    and "\<And>r a. policy r a \<noteq> 0"
    and "sint (step_events_remaining d) \<le> int fuel"
  shows "\<exists>tr. prep_block fuel policy seg d = Some tr \<and> tr \<noteq> [] \<and> slice_chain d tr"
  using assms
proof (induction fuel arbitrary: d)
  case 0
  then show ?case by simp
next
  case (Suc fuel)
  let ?c = "policy (step_events_remaining d) (decelerate_after d)"
  obtain seg' d' where sl: "prep_slice ?c (seg, d) = (seg', d')"
    by (cases "prep_slice ?c (seg, d)")
  have ch: "?c \<noteq> 0" by (rule Suc.prems(3))
  note st = prep_slice_step [OF Suc.prems(1) ch sl]
  have da: "sint (decelerate_after d') = sint (decelerate_after d) - uint (n_step seg')"
    using st(1,2) Suc.prems(2) by (intro st(6)) linarith
  have head: "0 < uint (n_step seg')
      \<and> uint (n_step seg') \<le> sint (step_events_remaining d)
      \<and> sint (step_events_remaining d') = sint (step_events_remaining d) - uint (n_step seg')
      \<and> sint (decelerate_after d') = sint (decelerate_after d) - uint (n_step seg')
      \<and> (0 < sint (decelerate_after d) \<longrightarrow> uint (n_step seg') \<le> sint (decelerate_after d))
      \<and> flag seg' = segment_flag_spec (step_events_remaining d') (decelerate_after d)"
    using st(1,2,4,5,7) da by blast
  show ?case
  proof (cases "step_events_remaining d' = 0")
    case True
    then have "prep_block (Suc fuel) policy seg d = Some [(seg', d')]"
      using sl by simp
    moreover have "slice_chain d [(seg', d')]" using head True by simp
    ultimately show ?thesis by blast
  next
    case False
    then have nz: "sint (step_events_remaining d') \<noteq> 0" by (simp add: sint32_zero_iff)
    have p1: "0 < sint (step_events_remaining d')" using st(2,4) nz by linarith
    have p2: "- (2 ^ 31) \<le> sint (decelerate_after d') - sint (step_events_remaining d')"
      using da st(4) Suc.prems(2) by linarith
    have p4: "sint (step_events_remaining d') \<le> int fuel"
      using st(1,4) Suc.prems(4) by linarith
    from Suc.IH [OF p1 p2 Suc.prems(3) p4]
    obtain tr where tr: "prep_block fuel policy seg d' = Some tr" "tr \<noteq> []" "slice_chain d' tr"
      by blast
    have "prep_block (Suc fuel) policy seg d = Some ((seg', d') # tr)"
      using sl False tr(1) by simp
    moreover have "slice_chain d ((seg', d') # tr)"
      using head False tr(2,3) by simp
    ultimately show ?thesis by blast
  qed
qed

lemma slice_chain_remaining:
  "slice_chain d tr \<Longrightarrow>
     \<forall>x\<in>set tr. 0 \<le> sint (step_events_remaining (snd x))
                \<and> sint (step_events_remaining (snd x)) \<le> sint (step_events_remaining d)"
proof (induction tr arbitrary: d)
  case Nil
  then show ?case by simp
next
  case (Cons x rest)
  from Cons.prems have h: "0 < uint (n_step (fst x))"
      "uint (n_step (fst x)) \<le> sint (step_events_remaining d)"
      "sint (step_events_remaining (snd x)) = sint (step_events_remaining d) - uint (n_step (fst x))"
      "slice_chain (snd x) rest"
    by simp_all
  from Cons.IH [OF h(4)] h(1,2,3) show ?case by fastforce
qed

lemma slice_chain_decel:
  "slice_chain d tr \<Longrightarrow>
     \<forall>x\<in>set tr. sint (decelerate_after (snd x)) \<le> sint (decelerate_after d)"
proof (induction tr arbitrary: d)
  case Nil
  then show ?case by simp
next
  case (Cons x rest)
  from Cons.prems have h: "0 < uint (n_step (fst x))"
      "sint (decelerate_after (snd x)) = sint (decelerate_after d) - uint (n_step (fst x))"
      "slice_chain (snd x) rest"
    by simp_all
  from Cons.IH [OF h(3)] h(1,2) show ?case by fastforce
qed

lemma slice_chain_remaining_sorted:
  "slice_chain d tr \<Longrightarrow>
     sorted_wrt (\<lambda>a b. b \<le> a)
       (map sint (step_events_remaining d # map (step_events_remaining \<circ> snd) tr))"
proof (induction tr arbitrary: d)
  case Nil
  then show ?case by simp
next
  case (Cons x rest)
  from Cons.prems have h: "slice_chain (snd x) rest" by simp
  from slice_chain_remaining [OF Cons.prems] Cons.IH [OF h] show ?case by simp
qed

lemma slice_chain_decel_sorted:
  "slice_chain d tr \<Longrightarrow>
     sorted_wrt (\<lambda>a b. b \<le> a)
       (map sint (decelerate_after d # map (decelerate_after \<circ> snd) tr))"
proof (induction tr arbitrary: d)
  case Nil
  then show ?case by simp
next
  case (Cons x rest)
  from Cons.prems have h: "slice_chain (snd x) rest" by simp
  from slice_chain_decel [OF Cons.prems] Cons.IH [OF h] show ?case by simp
qed

lemma slice_chain_last:
  "slice_chain d tr \<Longrightarrow> tr \<noteq> [] \<Longrightarrow> step_events_remaining (snd (last tr)) = 0"
proof (induction tr arbitrary: d)
  case Nil
  then show ?case by simp
next
  case (Cons x rest)
  then show ?case by (cases "rest = []") auto
qed

lemma slice_chain_sums:
  "slice_chain d tr \<Longrightarrow> tr \<noteq> [] \<Longrightarrow>
     sint (step_events_remaining (snd (last tr))) =
       sint (step_events_remaining d) - sum_list (map (uint \<circ> n_step \<circ> fst) tr)
   \<and> sint (decelerate_after (snd (last tr))) =
       sint (decelerate_after d) - sum_list (map (uint \<circ> n_step \<circ> fst) tr)"
proof (induction tr arbitrary: d)
  case Nil
  then show ?case by simp
next
  case (Cons x rest)
  show ?case
  proof (cases "rest = []")
    case True
    from Cons.prems(1)
    have "sint (step_events_remaining (snd x)) =
            sint (step_events_remaining d) - uint (n_step (fst x))"
      and "sint (decelerate_after (snd x)) = sint (decelerate_after d) - uint (n_step (fst x))"
      by simp_all
    then show ?thesis using True by simp
  next
    case False
    from Cons.prems(1)
    have h: "slice_chain (snd x) rest"
      and "sint (step_events_remaining (snd x)) =
            sint (step_events_remaining d) - uint (n_step (fst x))"
      and "sint (decelerate_after (snd x)) = sint (decelerate_after d) - uint (n_step (fst x))"
      by simp_all
    with Cons.IH [OF h False] False show ?thesis by simp
  qed
qed

lemma slice_chain_lands:
  "slice_chain d tr \<Longrightarrow> tr \<noteq> [] \<Longrightarrow> 0 < sint (decelerate_after d) \<Longrightarrow>
   sint (decelerate_after d) \<le> sint (step_events_remaining d) \<Longrightarrow>
     \<exists>x\<in>set tr. decelerate_after (snd x) = 0"
proof (induction tr arbitrary: d)
  case Nil
  then show ?case by simp
next
  case (Cons x rest)
  from Cons.prems(1) have h: "0 < uint (n_step (fst x))"
      "uint (n_step (fst x)) \<le> sint (step_events_remaining d)"
      "sint (step_events_remaining (snd x)) = sint (step_events_remaining d) - uint (n_step (fst x))"
      "sint (decelerate_after (snd x)) = sint (decelerate_after d) - uint (n_step (fst x))"
      "uint (n_step (fst x)) \<le> sint (decelerate_after d)"
      "rest = [] \<longleftrightarrow> step_events_remaining (snd x) = 0"
      "slice_chain (snd x) rest"
    using Cons.prems(3) by simp_all
  show ?case
  proof (cases "sint (decelerate_after (snd x)) = 0")
    case True
    then show ?thesis by (simp add: sint32_zero_iff)
  next
    case False
    then have p: "0 < sint (decelerate_after (snd x))" using h(4,5) by linarith
    have q: "sint (decelerate_after (snd x)) \<le> sint (step_events_remaining (snd x))"
      using h(3,4) Cons.prems(4) by linarith
    then have "sint (step_events_remaining (snd x)) \<noteq> 0" using p by linarith
    then have "rest \<noteq> []" using h(6) by (simp add: sint32_zero_iff)
    from Cons.IH [OF h(7) this p q] show ?thesis by auto
  qed
qed

lemma slice_chain_flags:
  "slice_chain d tr \<Longrightarrow> tr \<noteq> [] \<Longrightarrow>
     (\<forall>x\<in>set (butlast tr). \<not> end_of_block_flag (flag (fst x)))
   \<and> end_of_block_flag (flag (fst (last tr)))"
proof (induction tr arbitrary: d)
  case Nil
  then show ?case by simp
next
  case (Cons x rest)
  show ?case
  proof (cases "rest = []")
    case True
    with Cons.prems show ?thesis
      by (auto simp: segment_flag_spec_def end_of_block_flag_def)
  next
    case False
    from Cons.prems have h: "slice_chain (snd x) rest" by simp
    from Cons.prems False have "\<not> end_of_block_flag (flag (fst x))"
      by (auto simp: segment_flag_spec_def end_of_block_flag_def stepper_consts)
    with Cons.IH [OF h False] False show ?thesis by simp
  qed
qed

lemma sample_block_trace:
  "prep_block (Suc (Suc (Suc 0))) (\<lambda>r a. N_STEP_CHUNK) segment_zero sample_data =
     Some [(\<lparr>n_step = 2, st_data_index = 0, flag = ST_NOOP\<rparr>,
            data_zero\<lparr>step_events_remaining := 1, decelerate_after := 0\<rparr>),
           (\<lparr>n_step = 1, st_data_index = 0, flag = ST_DECEL_EOB\<rparr>,
            data_zero\<lparr>step_events_remaining := 0, decelerate_after := - 1\<rparr>)]"
  by (simp add: prep_slice_def Let_def N_STEP_CHUNK_def sample_data_def
      data_zero_def segment_zero_def word_sless_alt stepper_consts)

section \<open>What the phases of the interrupt leave unchanged\<close>

lemma bresenham_x_frame:
  "segment_buffer_tail (bresenham_x cfg b s) = segment_buffer_tail s"
  "segment_buffer_head (bresenham_x cfg b s) = segment_buffer_head s"
  "segment_next_head (bresenham_x cfg b s) = segment_next_head s"
  "segment_buffer (bresenham_x cfg b s) = segment_buffer s"
  "segment_data (bresenham_x cfg b s) = segment_data s"
  "planner (bresenham_x cfg b s) = planner s"
  "pl_current_block (bresenham_x cfg b s) = pl_current_block s"
  "st_current_segment (bresenham_x cfg b s) = st_current_segment s"
  "st_current_data (bresenham_x cfg b s) = st_current_data s"
  "settings (bresenham_x cfg b s) = settings s"
  "busy (bresenham_x cfg b s) = busy s"
  "load_flag (st (bresenham_x cfg b s)) = load_flag (st s)"
  "segment_steps_remaining (st (bresenham_x cfg b s)) = segment_steps_remaining (st s)"
  "counter_y (st (bresenham_x cfg b s)) = counter_y (st s)"
  "counter_z (st (bresenham_x cfg b s)) = counter_z (st s)"
  "sys_position (sys (bresenham_x cfg b s)) Y_AXIS = sys_position (sys s) Y_AXIS"
  "sys_position (sys (bresenham_x cfg b s)) Z_AXIS = sys_position (sys s) Z_AXIS"
  by (simp_all add: bresenham_x_def split: prod.splits)

lemma bresenham_y_frame:
  "segment_buffer_tail (bresenham_y cfg b s) = segment_buffer_tail s"
  "segment_buffer_head (bresenham_y cfg b s) = segment_buffer_head s"
  "segment_next_head (bresenham_y cfg b s) = segment_next_head s"
  "segment_buffer (bresenham_y cfg b s) = segment_buffer s"
  "segment_data (bresenham_y cfg b s) = segment_data s"
  "planner (bresenham_y cfg b s) = planner s"
  "pl_current_block (bresenham_y cfg b s) = pl_current_block s"
  "st_current_segment (bresenham_y cfg b s) = st_current_segment s"
  "st_current_data (bresenham_y cfg b s) = st_current_data s"
  "settings (bresenham_y cfg b s) = settings s"
  "busy (bresenham_y cfg b s) = busy s"
  "load_flag (st (bresenham_y cfg b s)) = load_flag (st s)"
  "segment_steps_remaining (st (bresenham_y cfg b s)) = segment_steps_remaining (st s)"
  "counter_x (st (bresenham_y cfg b s)) = counter_x (st s)"
  "counter_z (st (bresenham_y cfg b s)) = counter_z (st s)"
  "sys_position (sys (bresenham_y cfg b s)) X_AXIS = sys_position (sys s) X_AXIS"
  "sys_position (sys (bresenham_y cfg b s)) Z_AXIS = sys_position (sys s) Z_AXIS"
  by (simp_all add: bresenham_y_def split: prod.splits)

lemma bresenham_z_frame:
  "segment_buffer_tail (bresenham_z cfg b s) = segment_buffer_tail s"
  "segment_buffer_head (bresenham_z cfg b s) = segment_buffer_head s"
  "segment_next_head (bresenham_z cfg b s) = segment_next_head s"
  "segment_buffer (bresenham_z cfg b s) = segment_buffer s"
  "segment_data (bresenham_z cfg b s) = segment_data s"
  "planner (bresenham_z cfg b s) = planner s"
  "pl_current_block (bresenham_z cfg b s) = pl_current_block s"
  "st_current_segment (bresenham_z cfg b s) = st_current_segment s"
  "st_current_data (bresenham_z cfg b s) = st_current_data s"
  "settings (bresenham_z cfg b s) = settings s"
  "busy (bresenham_z cfg b s) = busy s"
  "load_flag (st (bresenham_z cfg b s)) = load_flag (st s)"
  "segment_steps_remaining (st (bresenham_z cfg b s)) = segment_steps_remaining (st s)"
  "counter_x (st (bresenham_z cfg b s)) = counter_x (st s)"
  "counter_y (st (bresenham_z cfg b s)) = counter_y (st s)"
  "sys_position (sys (bresenham_z cfg b s)) X_AXIS = sys_position (sys s) X_AXIS"
  "sys_position (sys (bresenham_z cfg b s)) Y_AXIS = sys_position (sys s) Y_AXIS"
  by (simp_all add: bresenham_z_def split: prod.splits)

lemmas bresenham_frame = bresenham_x_frame bresenham_y_frame bresenham_z_frame


lemma isr_step_move_frame:
  "segment_buffer_tail (isr_step_move cfg d b s) = segment_buffer_tail s"
  "segment_buffer_head (isr_step_move cfg d b s) = segment_buffer_head s"
  "segment_next_head (isr_step_move cfg d b s) = segment_next_head s"
  "segment_buffer (isr_step_move cfg d b s) = segment_buffer s"
  "segment_data (isr_step_move cfg d b s) = segment_data s"
  "planner (isr_step_move cfg d b s) = planner s"
  "pl_current_block (isr_step_move cfg d b s) = pl_current_block s"
  "st_current_segment (isr_step_move cfg d b s) = st_current_segment s"
  "st_current_data (isr_step_move cfg d b s) = st_current_data s"
  "settings (isr_step_move cfg d b s) = settings s"
  "busy (isr_step_move cfg d b s) = busy s"
  "load_flag (st (isr_step_move cfg d b s)) = load_flag (st s)"
  "segment_steps_remaining (st (isr_step_move cfg d b s)) = segment_steps_remaining (st s) - 1"
  by (simp_all add: isr_step_move_def Let_def bresenham_frame)

lemma isr_step_event_cases:
  assumes "isr_step_event cfg ext s = Some s'"
  obtains d b m where "deref_data s (st_current_data s) = Some d"
    and "pl_current_block s = Some b"
    and "m = isr_step_move cfg d b s"
    and "segment_steps_remaining (st m) \<noteq> 0"
    and "s' = m\<lparr>st := (st m)\<lparr>out_bits := out_bits (st m) XOR invert_mask (settings m)\<rparr>\<rparr>"
  | d b m n where "deref_data s (st_current_data s) = Some d"
    and "pl_current_block s = Some b"
    and "m = isr_step_move cfg d b s"
    and "segment_steps_remaining (st m) = 0"
    and "isr_segment_done ext m = Some n"
    and "s' = n\<lparr>st := (st n)\<lparr>out_bits := out_bits (st n) XOR invert_mask (settings n)\<rparr>\<rparr>"
  using assms
  by (auto simp: isr_step_event_def Let_def split: option.splits if_splits)


lemma isr_ramp_ring:
  assumes "isr_ramp cfg s = Some s'"
  shows "segment_buffer_head s' = segment_buffer_head s"
    and "segment_next_head s' = segment_next_head s"
    and "segment_buffer_tail s' = segment_buffer_tail s"
    and "segment_buffer s' = segment_buffer s"
    and "load_flag (st s') = load_flag (st s)"
  using assms
  by (auto simp: isr_ramp_def Let_def ramp_adjust_def split: option.splits if_splits)


lemma isr_load_block_frame:
  assumes "isr_load_block cfg ext s = Some s'"
  shows "segment_buffer_head s' = segment_buffer_head s"
    and "segment_next_head s' = segment_next_head s"
    and "segment_buffer_tail s' = segment_buffer_tail s"
    and "segment_buffer s' = segment_buffer s"
    and "segment_data s' = segment_data s"
    and "planner s' = planner s"
    and "sys s' = sys s"
    and "settings s' = settings s"
    and "busy s' = busy s"
    and "st_current_segment s' = st_current_segment s"
    and "load_flag (st s') = load_flag (st s)"
    and "segment_steps_remaining (st s') = segment_steps_remaining (st s)"
    and "pl_current_block s' = plan_get_current_block ext (planner s)"
  using assms
  by (auto simp: isr_load_block_def Let_def deref_data_def split: option.splits if_splits)

lemma isr_load_frame:
  assumes "isr_load cfg ext s = Some s'"
  shows "segment_buffer_head s' = segment_buffer_head s"
    and "segment_next_head s' = segment_next_head s"
    and "segment_buffer_tail s' = segment_buffer_tail s"
    and "segment_buffer s' = segment_buffer s"
    and "segment_data s' = segment_data s"
    and "planner s' = planner s"
    and "sys s' = sys s"
    and "settings s' = settings s"
    and "busy s' = busy s"
    and "load_flag (st s') = LOAD_NOOP"
    and "st_current_segment s' = Some (unat (segment_buffer_tail s))"
    and "unat (segment_buffer_tail s) < length (segment_buffer s)"
proof -
  let ?s1 = "s\<lparr>st_current_segment := Some (unat (segment_buffer_tail s))\<rparr>"
  let ?s2 = "?s1\<lparr>st := (st ?s1)\<lparr>segment_steps_remaining :=
                    n_step (segment_buffer ?s1 ! unat (segment_buffer_tail ?s1))\<rparr>\<rparr>"
  from assms have b: "unat (segment_buffer_tail s) < length (segment_buffer s)"
    by (simp add: isr_load_def split: if_splits)
  from assms b obtain s3 seg where
    s3: "(if load_flag (st ?s2) = LOAD_BLOCK then isr_load_block cfg ext ?s2 else Some ?s2) = Some s3"
    and seg: "deref_segment s3 (st_current_segment s3) = Some seg"
    and s': "s' = (s3\<lparr>st := isr_check_decel cfg seg (st s3)\<rparr>)\<lparr>st :=
                (st (s3\<lparr>st := isr_check_decel cfg seg (st s3)\<rparr>))\<lparr>load_flag := LOAD_NOOP\<rparr>\<rparr>"
    by (auto simp: isr_load_def Let_def split: option.splits if_splits)
  have f: "segment_buffer_head s3 = segment_buffer_head s
    \<and> segment_next_head s3 = segment_next_head s
    \<and> segment_buffer_tail s3 = segment_buffer_tail s
    \<and> segment_buffer s3 = segment_buffer s
    \<and> segment_data s3 = segment_data s
    \<and> planner s3 = planner s \<and> sys s3 = sys s \<and> settings s3 = settings s
    \<and> busy s3 = busy s
    \<and> st_current_segment s3 = Some (unat (segment_buffer_tail s))"
  proof (cases "load_flag (st ?s2) = LOAD_BLOCK")
    case True
    with s3 have "isr_load_block cfg ext ?s2 = Some s3" by simp
    from isr_load_block_frame [OF this] show ?thesis by simp
  next
    case False
    with s3 have "s3 = ?s2" by simp
    then show ?thesis by simp
  qed
  show "segment_buffer_head s' = segment_buffer_head s"
    and "segment_next_head s' = segment_next_head s"
    and "segment_buffer_tail s' = segment_buffer_tail s"
    and "segment_buffer s' = segment_buffer s"
    and "segment_data s' = segment_data s"
    and "planner s' = planner s"
    and "sys s' = sys s"
    and "settings s' = settings s"
    and "busy s' = busy s"
    and "load_flag (st s') = LOAD_NOOP"
    and "st_current_segment s' = Some (unat (segment_buffer_tail s))"
    using f s' by simp_all
  show "unat (segment_buffer_tail s) < length (segment_buffer s)" by (rule b)
qed

lemma isr_entry_Return:
  assumes "isr_entry cfg ext s = Some (Return s')"
  shows "segment_buffer_head s' = segment_buffer_head s"
    and "segment_next_head s' = segment_next_head s"
    and "segment_buffer_tail s' = segment_buffer_tail s"
    and "segment_buffer s' = segment_buffer s"
    and "segment_data s' = segment_data s"
    and "planner s' = planner s"
    and "sys_position (sys s') = sys_position (sys s)"
    and "load_flag (st s') = load_flag (st s)"
    and "pl_current_block s' = pl_current_block s"
    and "counter_x (st s') = counter_x (st s)"
    and "counter_y (st s') = counter_y (st s)"
    and "counter_z (st s') = counter_z (st s)"
  using assms
  by (auto simp: isr_entry_def Let_def st_go_idle_frame isr_pulse_frame isr_pulse_st
      split: if_splits)

lemma isr_entry_Continue:
  assumes "isr_entry cfg ext s = Some (Continue s')"
  shows "segment_buffer_head s' = segment_buffer_head s"
    and "segment_next_head s' = segment_next_head s"
    and "segment_buffer_tail s' = segment_buffer_tail s"
    and "segment_buffer s' = segment_buffer s"
    and "segment_data s' = segment_data s"
    and "planner s' = planner s"
    and "sys s' = sys s"
    and "settings s' = settings s"
    and "load_flag (st s') = LOAD_NOOP"
    and "load_flag (st s) = LOAD_NOOP \<or> segment_buffer_head s \<noteq> segment_buffer_tail s"
    and "busy s = 0"
proof -
  let ?p = "(isr_pulse cfg s)\<lparr>busy := c_true\<rparr>"
  from assms have b: "busy s = 0" by (auto simp: isr_entry_def split: if_splits)
  have pf: "segment_buffer_head ?p = segment_buffer_head s"
    "segment_next_head ?p = segment_next_head s"
    "segment_buffer_tail ?p = segment_buffer_tail s"
    "segment_buffer ?p = segment_buffer s"
    "segment_data ?p = segment_data s"
    "planner ?p = planner s" "sys ?p = sys s" "settings ?p = settings s"
    "load_flag (st ?p) = load_flag (st s)"
    by (simp_all add: isr_pulse_frame isr_pulse_st)
  from assms b consider
      (noop) "load_flag (st s) = LOAD_NOOP" "s' = ?p"
    | (load) "load_flag (st s) \<noteq> LOAD_NOOP" "segment_buffer_head s \<noteq> segment_buffer_tail s"
        "isr_load cfg ext ?p = Some s'"
    by (auto simp: isr_entry_def Let_def isr_pulse_frame isr_pulse_st split: if_splits)
  then have "segment_buffer_head s' = segment_buffer_head s
    \<and> segment_next_head s' = segment_next_head s
    \<and> segment_buffer_tail s' = segment_buffer_tail s
    \<and> segment_buffer s' = segment_buffer s
    \<and> segment_data s' = segment_data s
    \<and> planner s' = planner s \<and> sys s' = sys s \<and> settings s' = settings s
    \<and> load_flag (st s') = LOAD_NOOP
    \<and> (load_flag (st s) = LOAD_NOOP \<or> segment_buffer_head s \<noteq> segment_buffer_tail s)"
  proof cases
    case noop
    then show ?thesis using pf by simp
  next
    case load
    from isr_load_frame [OF load(3)] load(2) pf show ?thesis by simp
  qed
  then show "segment_buffer_head s' = segment_buffer_head s"
    and "segment_next_head s' = segment_next_head s"
    and "segment_buffer_tail s' = segment_buffer_tail s"
    and "segment_buffer s' = segment_buffer s"
    and "segment_data s' = segment_data s"
    and "planner s' = planner s"
    and "sys s' = sys s"
    and "settings s' = settings s"
    and "load_flag (st s') = LOAD_NOOP"
    and "load_flag (st s) = LOAD_NOOP \<or> segment_buffer_head s \<noteq> segment_buffer_tail s"
    by blast+
  show "busy s = 0" by (rule b)
qed

lemma isr_cases:
  assumes "isr cfg ext s = Some s'"
  obtains (ret) "isr_entry cfg ext s = Some (Return s')"
  | (run) s1 where "isr_entry cfg ext s = Some (Continue s1)" "isr_run cfg ext s1 = Some s'"
  using assms by (auto simp: isr_def split: option.splits flow.splits)


lemma prep_load_block_frame:
  assumes "prep_load_block ext b s = Some s'"
  shows "segment_buffer_head s' = segment_buffer_head s"
    and "segment_next_head s' = segment_next_head s"
    and "segment_buffer_tail s' = segment_buffer_tail s"
    and "segment_buffer s' = segment_buffer s"
    and "st s' = st s" and "sys s' = sys s" and "planner s' = planner s"
    and "pl_current_block s' = pl_current_block s"
    and "busy s' = busy s"
  using assms by (auto simp: prep_load_block_def Let_def split: if_splits)

lemma prep_segment_frame:
  assumes "prep_segment s = Some s'"
  shows "segment_buffer_head s' = segment_next_head s"
    and "segment_next_head s' = next_block_index (segment_next_head s)"
    and "segment_buffer_tail s' = segment_buffer_tail s"
    and "st s' = st s" and "sys s' = sys s" and "planner s' = planner s"
    and "pl_current_block s' = pl_current_block s"
    and "busy s' = busy s"
  using assms
  by (auto simp: prep_segment_def Let_def split: if_splits option.splits prod.splits)

lemma st_prep_body_Return:
  assumes "st_prep_body ext s = Some (Return s')"
  shows "segment_buffer_head s' = segment_buffer_head s"
    and "segment_next_head s' = segment_next_head s"
    and "segment_buffer_tail s' = segment_buffer_tail s"
    and "st s' = st s" and "sys s' = sys s" and "planner s' = planner s"
    and "pl_current_block s' = pl_current_block s"
    and "busy s' = busy s"
  using assms
  by (auto simp: st_prep_body_def Let_def split: if_splits option.splits flow.splits)

lemma st_prep_body_Continue:
  assumes "st_prep_body ext s = Some (Continue s')"
  shows "segment_buffer_head s' = segment_next_head s"
    and "segment_next_head s' = next_block_index (segment_next_head s)"
    and "segment_buffer_tail s' = segment_buffer_tail s"
    and "st s' = st s" and "sys s' = sys s" and "planner s' = planner s"
    and "pl_current_block s' = pl_current_block s"
    and "busy s' = busy s"
proof -
  from assms obtain s1 where
    a: "s1 = s \<or> (\<exists>b. prep_load_block ext b
          (s\<lparr>pl_prep_block := plan_get_block_by_index ext (planner s) (pl_prep_index s)\<rparr>) = Some s1)"
    and b: "prep_segment s1 = Some s'"
    by (auto simp: st_prep_body_def Let_def split: if_splits option.splits flow.splits)
  from a have f: "segment_buffer_head s1 = segment_buffer_head s
    \<and> segment_next_head s1 = segment_next_head s
    \<and> segment_buffer_tail s1 = segment_buffer_tail s
    \<and> st s1 = st s \<and> sys s1 = sys s \<and> planner s1 = planner s
    \<and> pl_current_block s1 = pl_current_block s \<and> busy s1 = busy s"
    by (auto dest: prep_load_block_frame)
  from prep_segment_frame [OF b] f
  show "segment_buffer_head s' = segment_next_head s"
    and "segment_next_head s' = next_block_index (segment_next_head s)"
    and "segment_buffer_tail s' = segment_buffer_tail s"
    and "st s' = st s" and "sys s' = sys s" and "planner s' = planner s"
    and "pl_current_block s' = pl_current_block s"
    and "busy s' = busy s"
    by simp_all
qed


section \<open>The guard against re-entry\<close>

text \<open>
  C10: if \<open>busy\<close> is set when the tick interrupt fires, the handler returns at once and
  is a complete no-op. The state it leaves is the state it found: the stepping port, the
  pulse timer, every field of \<open>st\<close> (also a pending \<open>execute_step\<close>), the buffer
  indices, the positions and the system flags.
\<close>

theorem isr_busy_noop: "busy s \<noteq> 0 \<Longrightarrow> isr cfg ext s = Some s"
  by (simp add: isr_def isr_entry_def)

theorem isr_busy_noop_witness:
  "busy busy_state \<noteq> 0 \<and> execute_step (st busy_state) \<noteq> 0
   \<and> isr grbl_config ring_extern busy_state = Some busy_state"
proof -
  have h: "busy busy_state \<noteq> 0" by (simp add: busy_state_def c_true_def)
  have e: "execute_step (st busy_state) \<noteq> 0" by (simp add: busy_state_def c_true_def)
  from isr_busy_noop [OF h] h e show ?thesis by simp
qed

section \<open>The empty buffer\<close>

text \<open>
  C8: when the handler has to load a segment (\<open>load_flag\<close> is not \<open>LOAD_NOOP\<close>) and the
  buffer is empty (head equals tail), it goes idle (\<open>st_go_idle\<close>), sets
  \<open>EXEC_CYCLE_STOP\<close> in \<open>sys.execute\<close> and returns. Beyond the pulse that was already
  pending on entry, nothing else changes: the output bits, the Bresenham counters and
  the other fields of \<open>st\<close>, the positions, the buffer and its indices, and the planner
  are as before, and the stepping port holds what the pending pulse wrote.
\<close>

theorem isr_buffer_empty:
  assumes "busy s = 0" and "load_flag (st s) \<noteq> LOAD_NOOP"
    and "segment_buffer_head s = segment_buffer_tail s"
  shows "isr cfg ext s =
           Some ((st_go_idle cfg ((isr_pulse cfg s)\<lparr>busy := c_true\<rparr>))
                   \<lparr>sys := (sys s)\<lparr>sys_execute := sys_execute (sys s) OR EXEC_CYCLE_STOP cfg\<rparr>\<rparr>)
    \<and> (\<forall>s'. isr cfg ext s = Some s' \<longrightarrow>
          st s' = (st s)\<lparr>execute_step := 0\<rparr>
        \<and> sys_position (sys s') = sys_position (sys s)
        \<and> sys_execute (sys s') = sys_execute (sys s) OR EXEC_CYCLE_STOP cfg
        \<and> STEPPING_PORT s' = STEPPING_PORT (isr_pulse cfg s)
        \<and> segment_buffer_head s' = segment_buffer_head s
        \<and> segment_buffer_tail s' = segment_buffer_tail s
        \<and> segment_next_head s' = segment_next_head s
        \<and> segment_buffer s' = segment_buffer s
        \<and> planner s' = planner s
        \<and> TCCR2B s' = 0 \<and> busy s' = 0)"
proof -
  let ?p = "(isr_pulse cfg s)\<lparr>busy := c_true\<rparr>"
  have lf: "load_flag (st ?p) \<noteq> LOAD_NOOP"
    using assms(2) by (simp add: isr_pulse_st)
  have em: "segment_buffer_head ?p = segment_buffer_tail ?p"
    using assms(3) by (simp add: isr_pulse_frame)
  have run: "isr cfg ext s =
      Some ((st_go_idle cfg ?p)
              \<lparr>sys := (sys s)\<lparr>sys_execute := sys_execute (sys s) OR EXEC_CYCLE_STOP cfg\<rparr>\<rparr>)"
    using assms(1) lf em
    by (simp add: isr_def isr_entry_def Let_def st_go_idle_frame isr_pulse_frame)
  show ?thesis
    unfolding run by (simp add: st_go_idle_frame isr_pulse_frame isr_pulse_st)
qed

theorem isr_buffer_empty_witness:
  "busy empty_state = 0 \<and> load_flag (st empty_state) \<noteq> LOAD_NOOP
   \<and> segment_buffer_head empty_state = segment_buffer_tail empty_state
   \<and> map_option (\<lambda>s. (STEPPING_PORT s, sys_execute (sys s), out_bits (st s), TCCR2B s))
        (isr grbl_config ring_extern empty_state) = Some (0x24, 4, 0x24, 0)"
proof -
  let ?r = "(st_go_idle grbl_config ((isr_pulse grbl_config empty_state)\<lparr>busy := c_true\<rparr>))
              \<lparr>sys := (sys empty_state)\<lparr>sys_execute :=
                  sys_execute (sys empty_state) OR EXEC_CYCLE_STOP grbl_config\<rparr>\<rparr>"
  have a: "busy empty_state = 0"
    by (simp add: empty_state_def st_reset_def power_on_def c_false_def)
  have b: "load_flag (st empty_state) \<noteq> LOAD_NOOP"
    by (simp add: empty_state_def stepper_consts)
  have c: "segment_buffer_head empty_state = segment_buffer_tail empty_state"
    by (simp add: empty_state_def st_reset_def power_on_def)
  from isr_buffer_empty [OF a b c, of grbl_config ring_extern]
  have r: "isr grbl_config ring_extern empty_state = Some ?r"
    by (rule conjunct1)
  have v1: "STEPPING_PORT ?r = 0x24"
    by (simp add: st_go_idle_frame isr_pulse_def empty_state_def c_true_def
        DIRECTION_MASK_def STEP_MASK_def grbl_config_def st_reset_def power_on_def)
  have v2: "sys_execute (sys ?r) = 4"
    by (simp add: empty_state_def st_reset_def power_on_def grbl_config_def)
  have v3: "out_bits (st ?r) = 0x24"
    by (simp add: st_go_idle_frame isr_pulse_st empty_state_def)
  have v4: "TCCR2B ?r = 0"
    by (simp add: st_go_idle_frame)
  have "map_option (\<lambda>s. (STEPPING_PORT s, sys_execute (sys s), out_bits (st s), TCCR2B s))
        (isr grbl_config ring_extern empty_state) = Some (0x24, 4, 0x24, 0)"
    unfolding r option.map prod.inject using v1 v2 v3 v4 by blast
  with a b c show ?thesis by blast
qed

section \<open>Reset\<close>

text \<open>
  C4: after \<open>st_reset\<close> the buffer should be empty, that is the test
  \<open>segment_buffer_head != segment_buffer_tail\<close> of the interrupt should fail, from every
  state. The function sets the tail to 0 and the index after the head to 1, but never
  assigns \<open>segment_buffer_head\<close>: called with two segments in the buffer (head 2), it
  leaves head 2 and tail 0, and the interrupt sees a buffer that is not empty.
\<close>

theorem st_reset_keeps_head:
  "segment_buffer_head (st_reset pushed_state) = 2
   \<and> segment_buffer_tail (st_reset pushed_state) = 0
   \<and> segment_next_head (st_reset pushed_state) = 1
   \<and> segment_buffer_head (st_reset pushed_state) \<noteq> segment_buffer_tail (st_reset pushed_state)"
  by (simp add: st_reset_def pushed_state_def power_on_def)

section \<open>The ramp\<close>

text \<open>
  C6: the claim holds for the rate \<open>delta_d\<close> but not for the rate that is applied at
  each tick, \<open>d_per_tick\<close>, which the code floors at \<open>MINIMUM_STEP_RATE\<close>. In the
  acceleration phase a rate adjustment adds \<open>rate_delta\<close> to \<open>delta_d\<close>, clamps the
  sum to \<open>nominal_rate\<close>, makes the phase cruise exactly when the sum reaches the nominal
  rate, and sets \<open>d_per_tick\<close> to the larger of the new \<open>delta_d\<close> and
  \<open>MINIMUM_STEP_RATE\<close>; nothing else of \<open>st\<close> changes. When the 32-bit sum does not
  wrap and \<open>delta_d\<close> was at most nominal, \<open>delta_d\<close> does not decrease and stays
  at most nominal, and the applied rate does not decrease and stays at most the larger
  of the nominal rate and \<open>MINIMUM_STEP_RATE\<close>, hence at most nominal when the nominal
  rate is not below the minimum. When \<open>rate_delta\<close> exceeds
  \<open>nominal_rate - initial_rate\<close>, the adjustment of the initial rate gives exactly
  the nominal rate in \<open>delta_d\<close>.
\<close>

theorem ramp_accel:
  assumes "ramp_type t = RAMP_ACCEL"
    and "unat (delta_d t) + unat (rate_delta d) < 2 ^ 32"
  shows "ramp_adjust cfg d t =
           t\<lparr>delta_d := min (delta_d t + rate_delta d) (nominal_rate d),
             d_per_tick :=
               max (min (delta_d t + rate_delta d) (nominal_rate d)) (MINIMUM_STEP_RATE cfg),
             ramp_type :=
               (if nominal_rate d \<le> delta_d t + rate_delta d then RAMP_NOOP_CRUISE
                else RAMP_ACCEL)\<rparr>
       \<and> delta_d (ramp_adjust cfg d t) =
           (if nominal_rate d \<le> delta_d t + rate_delta d then nominal_rate d
            else delta_d t + rate_delta d)
       \<and> unat (delta_d (ramp_adjust cfg d t)) =
           min (unat (delta_d t) + unat (rate_delta d)) (unat (nominal_rate d))
       \<and> ramp_type (ramp_adjust cfg d t) =
           (if unat (nominal_rate d) \<le> unat (delta_d t) + unat (rate_delta d)
            then RAMP_NOOP_CRUISE else RAMP_ACCEL)
       \<and> d_per_tick (ramp_adjust cfg d t) =
           max (delta_d (ramp_adjust cfg d t)) (MINIMUM_STEP_RATE cfg)
       \<and> (delta_d t \<le> nominal_rate d \<longrightarrow>
            delta_d t \<le> delta_d (ramp_adjust cfg d t)
          \<and> delta_d (ramp_adjust cfg d t) \<le> nominal_rate d
          \<and> max (delta_d t) (MINIMUM_STEP_RATE cfg) \<le> d_per_tick (ramp_adjust cfg d t)
          \<and> d_per_tick (ramp_adjust cfg d t) \<le> max (nominal_rate d) (MINIMUM_STEP_RATE cfg))
       \<and> (delta_d t \<le> nominal_rate d \<and> MINIMUM_STEP_RATE cfg \<le> nominal_rate d \<longrightarrow>
            d_per_tick (ramp_adjust cfg d t) \<le> nominal_rate d)
       \<and> (delta_d t = initial_rate d
            \<and> unat (nominal_rate d) < unat (initial_rate d) + unat (rate_delta d) \<longrightarrow>
            delta_d (ramp_adjust cfg d t) = nominal_rate d
          \<and> ramp_type (ramp_adjust cfg d t) = RAMP_NOOP_CRUISE)"
proof -
  let ?r = "ramp_adjust cfg d t"
  have sum: "unat (delta_d t + rate_delta d) = unat (delta_d t) + unat (rate_delta d)"
    using assms(2) unat_add_lem [of "delta_d t" "rate_delta d"] by simp
  have eq: "delta_d ?r =
           (if nominal_rate d \<le> delta_d t + rate_delta d then nominal_rate d
            else delta_d t + rate_delta d)"
    using assms(1) by (simp add: ramp_adjust_def Let_def stepper_consts)
  have rt: "ramp_type ?r =
           (if nominal_rate d \<le> delta_d t + rate_delta d then RAMP_NOOP_CRUISE else RAMP_ACCEL)"
    using assms(1) by (simp add: ramp_adjust_def Let_def stepper_consts)
  have dp: "d_per_tick ?r = max (delta_d ?r) (MINIMUM_STEP_RATE cfg)"
    by (auto simp: ramp_adjust_def Let_def max_def)
  have whole: "?r =
           t\<lparr>delta_d := min (delta_d t + rate_delta d) (nominal_rate d),
             d_per_tick :=
               max (min (delta_d t + rate_delta d) (nominal_rate d)) (MINIMUM_STEP_RATE cfg),
             ramp_type :=
               (if nominal_rate d \<le> delta_d t + rate_delta d then RAMP_NOOP_CRUISE
                else RAMP_ACCEL)\<rparr>"
    using assms(1)
    by (cases t) (auto simp: ramp_adjust_def Let_def stepper_consts min_def max_def)
  have u: "unat (delta_d ?r) =
           min (unat (delta_d t) + unat (rate_delta d)) (unat (nominal_rate d))"
    unfolding eq by (simp add: word_le_nat_alt sum min_def)
  have rt': "ramp_type ?r =
           (if unat (nominal_rate d) \<le> unat (delta_d t) + unat (rate_delta d)
            then RAMP_NOOP_CRUISE else RAMP_ACCEL)"
    unfolding rt by (simp add: word_le_nat_alt sum)
  have mono: "delta_d t \<le> nominal_rate d \<longrightarrow>
            delta_d t \<le> delta_d ?r \<and> delta_d ?r \<le> nominal_rate d"
    unfolding word_le_nat_alt u by simp
  have app: "delta_d t \<le> nominal_rate d \<longrightarrow>
            max (delta_d t) (MINIMUM_STEP_RATE cfg) \<le> d_per_tick ?r
          \<and> d_per_tick ?r \<le> max (nominal_rate d) (MINIMUM_STEP_RATE cfg)"
    unfolding dp using mono by (auto simp: max_def)
  have cap: "delta_d t \<le> nominal_rate d \<and> MINIMUM_STEP_RATE cfg \<le> nominal_rate d \<longrightarrow>
            d_per_tick ?r \<le> nominal_rate d"
    unfolding dp using mono by (auto simp: max_def)
  have first: "delta_d t = initial_rate d
            \<and> unat (nominal_rate d) < unat (initial_rate d) + unat (rate_delta d) \<longrightarrow>
            delta_d ?r = nominal_rate d \<and> ramp_type ?r = RAMP_NOOP_CRUISE"
    unfolding rt' word_unat_eq_iff u by (auto simp: min_def)
  from whole eq u rt' dp mono app cap first show ?thesis by blast
qed

theorem ramp_accel_witness:
  "ramp_type (st_zero\<lparr>ramp_type := RAMP_ACCEL, delta_d := 4000, d_per_tick := 4000\<rparr>) = RAMP_ACCEL
   \<and> ramp_adjust grbl_config
        (data_zero\<lparr>initial_rate := 4000, nominal_rate := 5000, rate_delta := 1500\<rparr>)
        (st_zero\<lparr>ramp_type := RAMP_ACCEL, delta_d := 4000, d_per_tick := 4000\<rparr>)
       = st_zero\<lparr>ramp_type := RAMP_NOOP_CRUISE, delta_d := 5000, d_per_tick := 5000\<rparr>"
proof -
  let ?t = "st_zero\<lparr>ramp_type := RAMP_ACCEL, delta_d := 4000, d_per_tick := 4000\<rparr>"
  let ?d = "data_zero\<lparr>initial_rate := 4000, nominal_rate := 5000, rate_delta := 1500\<rparr>"
  have a: "ramp_type ?t = RAMP_ACCEL" by simp
  have b: "unat (delta_d ?t) + unat (rate_delta ?d) < 2 ^ 32" by (simp add: data_zero_def)
  from ramp_accel [OF a b, of grbl_config]
  have "ramp_adjust grbl_config ?d ?t =
           ?t\<lparr>delta_d := min (delta_d ?t + rate_delta ?d) (nominal_rate ?d),
             d_per_tick :=
               max (min (delta_d ?t + rate_delta ?d) (nominal_rate ?d))
                 (MINIMUM_STEP_RATE grbl_config),
             ramp_type :=
               (if nominal_rate ?d \<le> delta_d ?t + rate_delta ?d then RAMP_NOOP_CRUISE
                else RAMP_ACCEL)\<rparr>"
    by (rule conjunct1)
  then have "ramp_adjust grbl_config ?d ?t =
      st_zero\<lparr>ramp_type := RAMP_NOOP_CRUISE, delta_d := 5000, d_per_tick := 5000\<rparr>"
    by (simp add: data_zero_def grbl_config_def st_zero_def)
  with a show ?thesis by blast
qed

theorem ramp_accel_counterexample:
  "ramp_type (st_zero\<lparr>ramp_type := RAMP_ACCEL, delta_d := 450, d_per_tick := 1000\<rparr>) = RAMP_ACCEL
   \<and> ramp_adjust grbl_config (data_zero\<lparr>nominal_rate := 500, rate_delta := 100\<rparr>)
        (st_zero\<lparr>ramp_type := RAMP_ACCEL, delta_d := 450, d_per_tick := 1000\<rparr>)
       = st_zero\<lparr>ramp_type := RAMP_NOOP_CRUISE, delta_d := 500, d_per_tick := 1000\<rparr>
   \<and> nominal_rate (data_zero\<lparr>nominal_rate := 500, rate_delta := 100\<rparr>)
       < d_per_tick (ramp_adjust grbl_config (data_zero\<lparr>nominal_rate := 500, rate_delta := 100\<rparr>)
           (st_zero\<lparr>ramp_type := RAMP_ACCEL, delta_d := 450, d_per_tick := 1000\<rparr>))
   \<and> delta_d (ramp_adjust grbl_config (data_zero\<lparr>nominal_rate := 500, rate_delta := 100\<rparr>)
        (st_zero\<lparr>ramp_type := RAMP_ACCEL, delta_d := 600\<rparr>)) = 500
   \<and> delta_d (ramp_adjust grbl_config
        (data_zero\<lparr>nominal_rate := 0xFFFFFFFF, rate_delta := 0x20\<rparr>)
        (st_zero\<lparr>ramp_type := RAMP_ACCEL, delta_d := 0xFFFFFFF0\<rparr>)) = 0x10"
  by (simp add: ramp_adjust_def Let_def st_zero_def data_zero_def stepper_consts grbl_config_def)

text \<open>
  C7: the claim reads the test backwards. In the deceleration phase the code subtracts
  \<open>rate_delta\<close> from the rate when the rate exceeds \<open>rate_delta\<close>, and halves the rate
  otherwise. Either way the new rate is at most the old one and the subtraction never
  wraps below zero; the phase stays deceleration.
\<close>

theorem ramp_decel:
  assumes "ramp_type t = RAMP_DECEL"
  shows "delta_d (ramp_adjust cfg d t) =
           (if delta_d t > rate_delta d then delta_d t - rate_delta d
            else drop_bit 1 (delta_d t))
       \<and> unat (delta_d (ramp_adjust cfg d t)) =
           (if unat (delta_d t) > unat (rate_delta d)
            then unat (delta_d t) - unat (rate_delta d)
            else unat (delta_d t) div 2)
       \<and> delta_d (ramp_adjust cfg d t) \<le> delta_d t
       \<and> ramp_type (ramp_adjust cfg d t) = RAMP_DECEL
       \<and> d_per_tick (ramp_adjust cfg d t) =
           (if delta_d (ramp_adjust cfg d t) < MINIMUM_STEP_RATE cfg then MINIMUM_STEP_RATE cfg
            else delta_d (ramp_adjust cfg d t))"
proof -
  have eq: "delta_d (ramp_adjust cfg d t) =
           (if delta_d t > rate_delta d then delta_d t - rate_delta d
            else drop_bit 1 (delta_d t))"
    using assms by (simp add: ramp_adjust_def Let_def stepper_consts)
  have u: "unat (delta_d (ramp_adjust cfg d t)) =
           (if unat (delta_d t) > unat (rate_delta d)
            then unat (delta_d t) - unat (rate_delta d)
            else unat (delta_d t) div 2)"
    unfolding eq
    by (auto simp: word_less_nat_alt unat_sub word_le_nat_alt unat_div drop_bit_eq_div)
  have le: "delta_d (ramp_adjust cfg d t) \<le> delta_d t"
    unfolding word_le_nat_alt u by auto
  have rt: "ramp_type (ramp_adjust cfg d t) = RAMP_DECEL"
    using assms by (simp add: ramp_adjust_def Let_def stepper_consts)
  have dp: "d_per_tick (ramp_adjust cfg d t) =
           (if delta_d (ramp_adjust cfg d t) < MINIMUM_STEP_RATE cfg then MINIMUM_STEP_RATE cfg
            else delta_d (ramp_adjust cfg d t))"
    by (simp add: ramp_adjust_def Let_def)
  from eq u le rt dp show ?thesis by blast
qed

theorem ramp_decel_witness:
  "ramp_type (st_zero\<lparr>ramp_type := RAMP_DECEL, delta_d := 5000\<rparr>) = RAMP_DECEL
   \<and> delta_d (ramp_adjust grbl_config (data_zero\<lparr>rate_delta := 100\<rparr>)
        (st_zero\<lparr>ramp_type := RAMP_DECEL, delta_d := 5000\<rparr>)) = 4900
   \<and> delta_d (ramp_adjust grbl_config (data_zero\<lparr>rate_delta := 100\<rparr>)
        (st_zero\<lparr>ramp_type := RAMP_DECEL, delta_d := 80\<rparr>)) = 40"
proof -
  let ?t = "st_zero\<lparr>ramp_type := RAMP_DECEL, delta_d := 5000\<rparr>"
  let ?u = "st_zero\<lparr>ramp_type := RAMP_DECEL, delta_d := 80\<rparr>"
  let ?d = "data_zero\<lparr>rate_delta := 100\<rparr>"
  have a: "ramp_type ?t = RAMP_DECEL" by simp
  have b: "ramp_type ?u = RAMP_DECEL" by simp
  from ramp_decel [OF a, of grbl_config ?d] ramp_decel [OF b, of grbl_config ?d] a
  show ?thesis by (simp add: data_zero_def)
qed

theorem ramp_decel_counterexample:
  "ramp_type (st_zero\<lparr>ramp_type := RAMP_DECEL, delta_d := 5000\<rparr>) = RAMP_DECEL
   \<and> delta_d (ramp_adjust grbl_config (data_zero\<lparr>rate_delta := 100\<rparr>)
        (st_zero\<lparr>ramp_type := RAMP_DECEL, delta_d := 5000\<rparr>)) = 4900
   \<and> decel_rate_spec 5000 100 = 2500
   \<and> delta_d (ramp_adjust grbl_config (data_zero\<lparr>rate_delta := 100\<rparr>)
        (st_zero\<lparr>ramp_type := RAMP_DECEL, delta_d := 5000\<rparr>)) \<noteq> decel_rate_spec 5000 100"
  by (simp add: ramp_adjust_def Let_def decel_rate_spec_def st_zero_def data_zero_def
      stepper_consts grbl_config_def)

section \<open>Slicing a block into segments\<close>

text \<open>
  C3: the claim tests both counters after they are decremented. The code decrements
  \<open>step_events_remaining\<close>, chooses the flag, and only then decrements
  \<open>decelerate_after\<close>: with the remaining steps at zero the flag is \<open>ST_DECEL_EOB\<close> if
  \<open>decelerate_after\<close> was zero when the slice began and \<open>ST_END_OF_BLOCK\<close> otherwise;
  with steps remaining it is \<open>ST_DECEL\<close> if \<open>decelerate_after\<close> was zero when the slice
  began and \<open>ST_NOOP\<close> otherwise. Both counters go down by the steps of the slice.
\<close>

theorem prep_slice_flag:
  "(case prep_slice chunk (seg, d) of
      (seg', d') \<Rightarrow>
         step_events_remaining d' = step_events_remaining d - ucast (n_step seg')
       \<and> decelerate_after d' = decelerate_after d - ucast (n_step seg')
       \<and> flag seg' = segment_flag_spec (step_events_remaining d') (decelerate_after d))"
  by (simp add: prep_slice_def Let_def segment_flag_spec_def)

theorem prep_slice_flag_counterexample:
  "(case prep_slice N_STEP_CHUNK
           (segment_zero, data_zero\<lparr>step_events_remaining := 100, decelerate_after := 100\<rparr>) of
      (seg', d') \<Rightarrow>
         n_step seg' = 100 \<and> step_events_remaining d' = 0 \<and> decelerate_after d' = 0
       \<and> flag seg' = ST_END_OF_BLOCK
       \<and> flag seg' \<noteq> segment_flag_spec (step_events_remaining d') (decelerate_after d'))"
  by (simp add: prep_slice_def Let_def segment_flag_spec_def N_STEP_CHUNK_def segment_zero_def
      data_zero_def stepper_consts word_sless_alt)

text \<open>
  C2: the claim holds for \<open>step_events_remaining\<close> and fails for \<open>decelerate_after\<close>,
  which the code keeps decrementing after the deceleration point. For a block with at
  least one step event, a deceleration point that is not negative, and any chunk policy
  that never asks for zero steps, the block is finished within as many slices as it has
  step events; \<open>step_events_remaining\<close> never increases, is never negative, and is zero
  when the block is complete, and the steps of the segments add up to the block's step
  events. \<open>decelerate_after\<close> never increases and, when the deceleration point lies
  inside the block, is exactly zero after some slice; at the end of the block it is the
  deceleration point minus the number of step events, which is negative whenever the
  block has steps after the deceleration point.
\<close>

theorem prep_block_counters:
  assumes "0 < sint (step_events_remaining d)"
    and "0 \<le> sint (decelerate_after d)"
    and "\<forall>r a. policy r a \<noteq> 0"
  shows "\<exists>tr. prep_block (nat (sint (step_events_remaining d))) policy seg d = Some tr
     \<and> tr \<noteq> []
     \<and> sorted_wrt (\<lambda>a b. b \<le> a)
          (map sint (step_events_remaining d # map (step_events_remaining \<circ> snd) tr))
     \<and> (\<forall>x\<in>set tr. 0 \<le> sint (step_events_remaining (snd x)))
     \<and> step_events_remaining (snd (last tr)) = 0
     \<and> sum_list (map (uint \<circ> n_step \<circ> fst) tr) = sint (step_events_remaining d)
     \<and> sorted_wrt (\<lambda>a b. b \<le> a)
          (map sint (decelerate_after d # map (decelerate_after \<circ> snd) tr))
     \<and> (0 < sint (decelerate_after d)
          \<and> sint (decelerate_after d) \<le> sint (step_events_remaining d)
         \<longrightarrow> (\<exists>x\<in>set tr. decelerate_after (snd x) = 0))
     \<and> sint (decelerate_after (snd (last tr))) =
          sint (decelerate_after d) - sint (step_events_remaining d)"
proof -
  have rb: "sint (step_events_remaining d) < 2 ^ 31"
    using sint_lt [of "step_events_remaining d"] by simp
  have p2: "- (2 ^ 31) \<le> sint (decelerate_after d) - sint (step_events_remaining d)"
    using assms(2) rb by linarith
  have p3: "\<And>r a. policy r a \<noteq> 0" using assms(3) by blast
  have p4: "sint (step_events_remaining d) \<le> int (nat (sint (step_events_remaining d)))"
    by simp
  from prep_block_chain [of d policy _ seg, OF assms(1) p2 p3 p4]
  obtain tr where tr: "prep_block (nat (sint (step_events_remaining d))) policy seg d = Some tr"
      "tr \<noteq> []" "slice_chain d tr"
    by blast
  have l: "step_events_remaining (snd (last tr)) = 0"
    by (rule slice_chain_last [OF tr(3,2)])
  from slice_chain_sums [OF tr(3,2)] l
  have s: "sum_list (map (uint \<circ> n_step \<circ> fst) tr) = sint (step_events_remaining d)"
    and a: "sint (decelerate_after (snd (last tr))) =
          sint (decelerate_after d) - sint (step_events_remaining d)"
    by simp_all
  have nn: "\<forall>x\<in>set tr. 0 \<le> sint (step_events_remaining (snd x))"
    using slice_chain_remaining [OF tr(3)] by blast
  have z: "0 < sint (decelerate_after d)
          \<and> sint (decelerate_after d) \<le> sint (step_events_remaining d)
         \<longrightarrow> (\<exists>x\<in>set tr. decelerate_after (snd x) = 0)"
    using slice_chain_lands [OF tr(3,2)] by blast
  from tr(1,2) slice_chain_remaining_sorted [OF tr(3)] nn l s
    slice_chain_decel_sorted [OF tr(3)] z a
  show ?thesis by blast
qed

theorem prep_block_counters_witness:
  "0 < sint (step_events_remaining sample_data) \<and> 0 \<le> sint (decelerate_after sample_data)
   \<and> (\<exists>tr. prep_block 3 (\<lambda>r a. N_STEP_CHUNK) segment_zero sample_data = Some tr
        \<and> map (\<lambda>x. (uint (n_step (fst x)), sint (step_events_remaining (snd x)),
                     sint (decelerate_after (snd x)))) tr = [(2, 1, 0), (1, 0, - 1)]
        \<and> step_events_remaining (snd (last tr)) = 0
        \<and> sint (decelerate_after (snd (last tr))) = - 1)"
proof -
  have a: "0 < sint (step_events_remaining sample_data)"
    by (simp add: sample_data_def data_zero_def)
  have b: "0 \<le> sint (decelerate_after sample_data)"
    by (simp add: sample_data_def data_zero_def)
  have c: "\<forall>r a. (\<lambda>r a. N_STEP_CHUNK) r a \<noteq> 0" by (simp add: N_STEP_CHUNK_def)
  have f: "nat (sint (step_events_remaining sample_data)) = 3"
    by (simp add: sample_data_def data_zero_def)
  have g: "(3 :: nat) = Suc (Suc (Suc 0))" by simp
  from prep_block_counters [OF a b c, of segment_zero]
  obtain tr where tr: "prep_block 3 (\<lambda>r a. N_STEP_CHUNK) segment_zero sample_data = Some tr"
      "step_events_remaining (snd (last tr)) = 0"
      "sint (decelerate_after (snd (last tr))) =
         sint (decelerate_after sample_data) - sint (step_events_remaining sample_data)"
    unfolding f by blast
  have v: "sint (decelerate_after sample_data) - sint (step_events_remaining sample_data) = - 1"
    by (simp add: sample_data_def data_zero_def)
  have m: "map (\<lambda>x. (uint (n_step (fst x)), sint (step_events_remaining (snd x)),
                     sint (decelerate_after (snd x)))) tr = [(2, 1, 0), (1, 0, - 1)]"
    using tr(1) unfolding g sample_block_trace by (auto simp: data_zero_def stepper_consts)
  from a b tr m v show ?thesis by auto
qed

theorem prep_block_counters_counterexample:
  "map_option (map (\<lambda>x. (uint (n_step (fst x)), sint (step_events_remaining (snd x)),
                     sint (decelerate_after (snd x)))))
     (prep_block 3 (\<lambda>r a. N_STEP_CHUNK) segment_zero sample_data)
     = Some [(2, 1, 0), (1, 0, - 1)]
   \<and> sint (decelerate_after sample_data) = 2
   \<and> sint (step_events_remaining sample_data) = 3"
proof -
  have g: "(3 :: nat) = Suc (Suc (Suc 0))" by simp
  show ?thesis
    unfolding g sample_block_trace by (simp add: data_zero_def sample_data_def)
qed

section \<open>The ring of segments under interleaving\<close>








section \<open>Evaluating the model\<close>

lemmas model_defs =
  isr_def isr_entry_def isr_run_def isr_load_def isr_load_block_def isr_check_decel_def
  isr_pulse_def isr_ramp_def ramp_adjust_def isr_integrate_def isr_step_event_def
  isr_step_move_def isr_segment_done_def bresenham_x_def bresenham_y_def bresenham_z_def
  bresenham_axis_def deref_segment_def deref_data_def st_go_idle_def bit_istrue_def
  st_prep_body_def prep_segment_def prep_load_block_def prep_slice_def N_STEP_CHUNK_def
  next_block_index_def next_block_pl_index_def st_reset_def st_zero_def
  STEP_MASK_def DIRECTION_MASK_def stepper_consts
  grbl_config_def ring_extern_def ring_block_def power_on_def data_zero_def segment_zero_def
  sample_block_def sample_planner_def


section \<open>The capacity of the segment buffer\<close>



section \<open>When the interrupt discards a planner block\<close>

lemma current_segment_ends_block_cong:
  assumes "segment_buffer s' = segment_buffer s"
    and "st_current_segment s' = st_current_segment s"
  shows "current_segment_ends_block s' = current_segment_ends_block s"
  using assms
  by (auto simp: current_segment_ends_block_def deref_segment_def split: option.splits)

lemma isr_segment_done_planner:
  assumes "isr_segment_done ext s = Some s'"
  shows "current_segment_ends_block s \<Longrightarrow>
           planner s' = plan_discard_current_block ext (planner s)
           \<and> load_flag (st s') = LOAD_BLOCK"
    and "\<not> current_segment_ends_block s \<Longrightarrow>
           planner s' = planner s \<and> load_flag (st s') = LOAD_LINE"
    and "segment_buffer s' = segment_buffer s"
    and "st_current_segment s' = st_current_segment s"
    and "segment_steps_remaining (st s') = segment_steps_remaining (st s)"
    and "sys s' = sys s" and "pl_current_block s' = pl_current_block s"
    and "settings s' = settings s" and "out_bits (st s') = out_bits (st s)"
    and "counter_x (st s') = counter_x (st s)" and "counter_y (st s') = counter_y (st s)"
    and "counter_z (st s') = counter_z (st s)"
  using assms
  by (auto simp: isr_segment_done_def Let_def current_segment_ends_block_def
      end_of_block_flag_def split: option.splits if_splits)

lemma isr_step_event_planner:
  assumes "isr_step_event cfg ext s = Some s'"
  shows "if segment_steps_remaining (st s') = 0 \<and> current_segment_ends_block s'
         then planner s' = plan_discard_current_block ext (planner s)
              \<and> load_flag (st s') = LOAD_BLOCK
         else planner s' = planner s
              \<and> (load_flag (st s') = load_flag (st s) \<or> load_flag (st s') = LOAD_LINE)"
  using assms
proof (cases rule: isr_step_event_cases)
  case (1 d b m)
  then show ?thesis by (simp add: isr_step_move_frame)
next
  case (2 d b m n)
  note f = isr_segment_done_planner [OF 2(5)]
  have e: "current_segment_ends_block s' = current_segment_ends_block m"
    using 2(6) f(3,4) by (intro current_segment_ends_block_cong) simp_all
  have r: "segment_steps_remaining (st s') = 0" using 2(4,6) f(5) by simp
  show ?thesis
  proof (cases "current_segment_ends_block m")
    case True
    with f(1) e r 2(3,6) show ?thesis by (simp add: isr_step_move_frame)
  next
    case False
    with f(2) e r 2(3,6) show ?thesis by (simp add: isr_step_move_frame)
  qed
qed

lemma isr_ramp_frame:
  assumes "isr_ramp cfg s = Some s'"
  shows "planner s' = planner s" and "sys s' = sys s" and "settings s' = settings s"
    and "pl_current_block s' = pl_current_block s"
    and "st_current_segment s' = st_current_segment s"
    and "st_current_data s' = st_current_data s"
    and "segment_data s' = segment_data s"
    and "segment_steps_remaining (st s') = segment_steps_remaining (st s)"
    and "counter_x (st s') = counter_x (st s)" and "counter_y (st s') = counter_y (st s)"
    and "counter_z (st s') = counter_z (st s)"
  using assms
  by (auto simp: isr_ramp_def Let_def ramp_adjust_def split: option.splits if_splits)

lemma isr_run_cases:
  assumes "isr_run cfg ext s = Some s'"
  obtains (quiet) s1 where "isr_ramp cfg s = Some s1"
      "\<not> counter_d (st (isr_integrate s1)) <s 0" "s' = (isr_integrate s1)\<lparr>busy := c_false\<rparr>"
  | (event) s1 s2 where "isr_ramp cfg s = Some s1"
      "counter_d (st (isr_integrate s1)) <s 0"
      "isr_step_event cfg ext (isr_integrate s1) = Some s2" "s' = s2\<lparr>busy := c_false\<rparr>"
  using assms by (auto simp: isr_run_def Let_def split: option.splits if_splits)

lemma isr_planner:
  assumes "isr cfg ext s = Some s'"
  shows "if step_event_due cfg ext s \<and> segment_steps_remaining (st s') = 0
            \<and> current_segment_ends_block s'
         then planner s' = plan_discard_current_block ext (planner s)
              \<and> load_flag (st s') = LOAD_BLOCK
         else planner s' = planner s
              \<and> (load_flag (st s') = LOAD_BLOCK \<longrightarrow>
                   load_flag (st s) = LOAD_BLOCK
                   \<and> (busy s \<noteq> 0 \<or> segment_buffer_head s = segment_buffer_tail s))"
  using assms
proof (cases rule: isr_cases)
  case ret
  then have nd: "\<not> step_event_due cfg ext s" by (simp add: step_event_due_def)
  from ret have "busy s \<noteq> 0 \<or> load_flag (st s) \<noteq> LOAD_NOOP
      \<and> segment_buffer_head s = segment_buffer_tail s"
    by (auto simp: isr_entry_def Let_def isr_pulse_frame isr_pulse_st split: if_splits)
  with nd isr_entry_Return [OF ret] show ?thesis by auto
next
  case (run s1)
  note e = isr_entry_Continue [OF run(1)]
  from run(2) show ?thesis
  proof (cases rule: isr_run_cases)
    case (quiet s2)
    then have nd: "\<not> step_event_due cfg ext s"
      using run(1) by (simp add: step_event_due_def)
    have "planner s' = planner s" and "load_flag (st s') = LOAD_NOOP"
      using quiet(3) isr_ramp_frame(1) [OF quiet(1)] isr_ramp_ring(5) [OF quiet(1)] e(6,9)
      by (simp_all add: isr_integrate_def)
    with nd show ?thesis by (simp add: stepper_consts)
  next
    case (event s2 s3)
    then have d: "step_event_due cfg ext s"
      using run(1) by (simp add: step_event_due_def)
    have p: "planner (isr_integrate s2) = planner s"
      and l: "load_flag (st (isr_integrate s2)) = LOAD_NOOP"
      using isr_ramp_frame(1) [OF event(1)] isr_ramp_ring(5) [OF event(1)] e(6,9)
      by (simp_all add: isr_integrate_def)
    have c: "current_segment_ends_block s' = current_segment_ends_block s3"
      using event(4) by (intro current_segment_ends_block_cong) simp_all
    from isr_step_event_planner [OF event(3)] d p l c event(4) show ?thesis
      by (auto simp: stepper_consts split: if_splits)
  qed
qed

lemma block_exec_planner:
  assumes "block_exec cfg ext acts (c, s) = Some (c', s')"
    and "if load_flag (st s) = LOAD_BLOCK
         then planner s = plan_discard_current_block ext p0 else planner s = p0"
  shows "if load_flag (st s') = LOAD_BLOCK
         then planner s' = plan_discard_current_block ext p0 else planner s' = p0"
  using assms
proof (induction acts arbitrary: c s)
  case Nil
  then show ?case by (auto split: if_splits)
next
  case (Cons a acts)
  show ?case
  proof (cases a)
    case Tick
    with Cons.prems(1) obtain s1 where nb: "load_flag (st s) \<noteq> LOAD_BLOCK"
      and t: "isr cfg ext s = Some s1"
      and rest: "block_exec cfg ext acts (count_tick cfg ext s s1 c, s1) = Some (c', s')"
      by (auto split: if_splits option.splits)
    from nb Cons.prems(2) have p: "planner s = p0" by simp
    from isr_planner [OF t] nb p
    have "if load_flag (st s1) = LOAD_BLOCK
         then planner s1 = plan_discard_current_block ext p0 else planner s1 = p0"
      by (auto split: if_splits)
    from Cons.IH [OF rest this] show ?thesis .
  next
    case PrepGuard
    with Cons.prems(1) have "block_exec cfg ext acts (c, s) = Some (c', s')" by simp
    from Cons.IH [OF this Cons.prems(2)] show ?thesis .
  next
    case PrepBody
    with Cons.prems(1) obtain s1 where
      b: "st_prep_body ext s = Some (Return s1) \<or> st_prep_body ext s = Some (Continue s1)"
      and rest: "block_exec cfg ext acts (c, s1) = Some (c', s')"
      by (auto split: option.splits flow.splits)
    from b have "st s1 = st s \<and> planner s1 = planner s"
      by (auto dest: st_prep_body_Return(4,6) st_prep_body_Continue(4,6))
    with Cons.prems(2)
    have "if load_flag (st s1) = LOAD_BLOCK
         then planner s1 = plan_discard_current_block ext p0 else planner s1 = p0"
      by simp
    from Cons.IH [OF rest this] show ?thesis .
  qed
qed

lemma block_start_cases:
  assumes "block_start cfg ext acts s = Some (c, s')"
  obtains s1 where "busy s = 0" "load_flag (st s) = LOAD_BLOCK"
    "segment_buffer_head s \<noteq> segment_buffer_tail s" "isr cfg ext s = Some s1"
    "block_exec cfg ext acts (count_tick cfg ext s s1 (0, (\<lambda>a. 0)), s1) = Some (c, s')"
  using assms by (auto simp: block_start_def split: if_splits option.splits)

lemma block_start_planner:
  assumes "block_start cfg ext acts s = Some (c, s')"
  shows "if load_flag (st s') = LOAD_BLOCK
         then planner s' = plan_discard_current_block ext (planner s)
         else planner s' = planner s"
  using assms
proof (cases rule: block_start_cases)
  case (1 s1)
  from isr_planner [OF 1(4)] 1(1,3)
  have "if load_flag (st s1) = LOAD_BLOCK
         then planner s1 = plan_discard_current_block ext (planner s)
         else planner s1 = planner s"
    by (auto split: if_splits)
  from block_exec_planner [OF 1(5) this] show ?thesis .
qed

section \<open>The sample block, prepared and executed\<close>

lemma sample_prepped_reached:
  "st_prep_buffer (Suc (Suc (Suc 0))) ring_extern (st_reset (power_on sample_planner))
     = Some sample_prepped"
  by (simp add: model_defs sample_prepped_def Let_def word_sless_alt)

lemma sample_block_run:
  "map_option (\<lambda>((events, pulses), s).
        (events, pulses X_AXIS, pulses Y_AXIS, pulses Z_AXIS, load_flag (st s),
         block_buffer_tail (planner s),
         sys_position (sys s) X_AXIS, sys_position (sys s) Y_AXIS, sys_position (sys s) Z_AXIS))
     (block_start grbl_config ring_extern [Tick, Tick] sample_prepped)
   = Some (3, 3, 1, 0, LOAD_BLOCK, 1, - 3, 1, 0)"
  by (simp add: block_start_def count_tick_def step_event_due_def step_latched_def
      axis_step_bit_def model_defs sample_prepped_def Let_def word_sless_alt)

section \<open>One discard for each block\<close>

text \<open>
  C9: a tick of the interrupt calls \<open>plan_discard_current_block\<close> exactly when it
  executes a step event that is the last step of the current segment
  (\<open>segment_steps_remaining\<close> reaches zero) and that segment is flagged
  \<open>ST_END_OF_BLOCK\<close> or \<open>ST_DECEL_EOB\<close>; it then calls it once and sets \<open>load_flag\<close> to
  \<open>LOAD_BLOCK\<close>. Every other tick leaves the planner as it is, and does not make
  \<open>load_flag\<close> \<open>LOAD_BLOCK\<close>. So over the execution of a block, from the tick that loads
  it and under any schedule of ticks and producer steps, the planner is unchanged while
  the block is executing and has been discarded exactly once when the block is
  finished (\<open>load_flag\<close> is \<open>LOAD_BLOCK\<close> again). And of the segments that
  \<open>st_prep_buffer\<close> cuts from a block, the last one and no other carries an end of
  block flag.
\<close>

theorem block_discarded_once:
  "(isr cfg ext s = Some s' \<longrightarrow>
      (if step_event_due cfg ext s \<and> segment_steps_remaining (st s') = 0
            \<and> current_segment_ends_block s'
       then planner s' = plan_discard_current_block ext (planner s)
            \<and> load_flag (st s') = LOAD_BLOCK
       else planner s' = planner s
            \<and> (load_flag (st s') = LOAD_BLOCK \<longrightarrow>
                 load_flag (st s) = LOAD_BLOCK
                 \<and> (busy s \<noteq> 0 \<or> segment_buffer_head s = segment_buffer_tail s))))
   \<and> (block_start cfg ext acts r = Some (c, r') \<longrightarrow>
      (if load_flag (st r') = LOAD_BLOCK
       then planner r' = plan_discard_current_block ext (planner r)
       else planner r' = planner r))
   \<and> (0 < sint (step_events_remaining d) \<and> 0 \<le> sint (decelerate_after d)
        \<and> (\<forall>x y. policy x y \<noteq> 0) \<longrightarrow>
      (\<exists>tr. prep_block (nat (sint (step_events_remaining d))) policy seg d = Some tr
         \<and> tr \<noteq> []
         \<and> (\<forall>x\<in>set (butlast tr). \<not> end_of_block_flag (flag (fst x)))
         \<and> end_of_block_flag (flag (fst (last tr)))))"
proof (intro conjI impI)
  assume "isr cfg ext s = Some s'"
  then show "if step_event_due cfg ext s \<and> segment_steps_remaining (st s') = 0
            \<and> current_segment_ends_block s'
       then planner s' = plan_discard_current_block ext (planner s)
            \<and> load_flag (st s') = LOAD_BLOCK
       else planner s' = planner s
            \<and> (load_flag (st s') = LOAD_BLOCK \<longrightarrow>
                 load_flag (st s) = LOAD_BLOCK
                 \<and> (busy s \<noteq> 0 \<or> segment_buffer_head s = segment_buffer_tail s))"
    by (rule isr_planner)
next
  assume "block_start cfg ext acts r = Some (c, r')"
  then show "if load_flag (st r') = LOAD_BLOCK
       then planner r' = plan_discard_current_block ext (planner r)
       else planner r' = planner r"
    by (rule block_start_planner)
next
  assume a: "0 < sint (step_events_remaining d) \<and> 0 \<le> sint (decelerate_after d)
        \<and> (\<forall>x y. policy x y \<noteq> 0)"
  have rb: "sint (step_events_remaining d) < 2 ^ 31"
    using sint_lt [of "step_events_remaining d"] by simp
  have p1: "0 < sint (step_events_remaining d)" using a by blast
  have p2: "- (2 ^ 31) \<le> sint (decelerate_after d) - sint (step_events_remaining d)"
    using a rb by linarith
  have p3: "\<And>x y. policy x y \<noteq> 0" using a by blast
  have p4: "sint (step_events_remaining d) \<le> int (nat (sint (step_events_remaining d)))"
    by simp
  from prep_block_chain [of d policy _ seg, OF p1 p2 p3 p4]
  obtain tr where tr: "prep_block (nat (sint (step_events_remaining d))) policy seg d = Some tr"
      "tr \<noteq> []" "slice_chain d tr"
    by blast
  from tr(1,2) slice_chain_flags [OF tr(3,2)]
  show "\<exists>tr. prep_block (nat (sint (step_events_remaining d))) policy seg d = Some tr
         \<and> tr \<noteq> []
         \<and> (\<forall>x\<in>set (butlast tr). \<not> end_of_block_flag (flag (fst x)))
         \<and> end_of_block_flag (flag (fst (last tr)))"
    by blast
qed

theorem block_discarded_once_witness:
  "(\<exists>s'. isr grbl_config ring_extern sample_prepped = Some s'
         \<and> planner s' = planner sample_prepped)
   \<and> (\<exists>c r'. block_start grbl_config ring_extern [Tick, Tick] sample_prepped = Some (c, r')
         \<and> load_flag (st r') = LOAD_BLOCK
         \<and> planner r' = plan_discard_current_block ring_extern (planner sample_prepped)
         \<and> block_buffer_tail (planner sample_prepped) = 0
         \<and> block_buffer_tail (planner r') = 1)
   \<and> 0 < sint (step_events_remaining sample_data) \<and> 0 \<le> sint (decelerate_after sample_data)
   \<and> (\<exists>tr. prep_block 3 (\<lambda>r a. N_STEP_CHUNK) segment_zero sample_data = Some tr
         \<and> map (flag \<circ> fst) tr = [ST_NOOP, ST_DECEL_EOB]
         \<and> end_of_block_flag (flag (fst (last tr))))"
proof -
  note inst = block_discarded_once [of grbl_config ring_extern sample_prepped _
      "[Tick, Tick]" sample_prepped _ _ sample_data "\<lambda>r a. N_STEP_CHUNK" segment_zero]
  from sample_block_run obtain c r' where
    run: "block_start grbl_config ring_extern [Tick, Tick] sample_prepped = Some (c, r')"
    and lf: "load_flag (st r') = LOAD_BLOCK" and tl: "block_buffer_tail (planner r') = 1"
    by (auto simp: map_option_case split: option.splits)
  from run obtain s1 where t: "isr grbl_config ring_extern sample_prepped = Some s1"
    by (rule block_start_cases)
  have nb: "load_flag (st s1) \<noteq> LOAD_BLOCK"
  proof
    assume "load_flag (st s1) = LOAD_BLOCK"
    moreover from run obtain s2 where "isr grbl_config ring_extern sample_prepped = Some s2"
      "block_exec grbl_config ring_extern [Tick, Tick]
         (count_tick grbl_config ring_extern sample_prepped s2 (0, (\<lambda>a. 0)), s2) = Some (c, r')"
      by (rule block_start_cases)
    ultimately show False using t by (cases "count_tick grbl_config ring_extern sample_prepped s2 (0, (\<lambda>a. 0))") auto
  qed
  have p1: "planner s1 = planner sample_prepped"
    using inst [THEN conjunct1, rule_format, OF t] nb by (auto split: if_splits)
  have p2: "planner r' = plan_discard_current_block ring_extern (planner sample_prepped)"
    using inst [THEN conjunct2, THEN conjunct1, rule_format, OF run] lf by simp
  have t0: "block_buffer_tail (planner sample_prepped) = 0"
    by (simp add: sample_prepped_def st_reset_def power_on_def sample_planner_def)
  have a: "0 < sint (step_events_remaining sample_data)"
    and b: "0 \<le> sint (decelerate_after sample_data)"
    by (simp_all add: sample_data_def data_zero_def)
  have f: "nat (sint (step_events_remaining sample_data)) = 3"
    by (simp add: sample_data_def data_zero_def)
  have "0 < sint (step_events_remaining sample_data) \<and> 0 \<le> sint (decelerate_after sample_data)
        \<and> (\<forall>x y. (\<lambda>r a. N_STEP_CHUNK) x y \<noteq> 0)"
    using a b by (simp add: N_STEP_CHUNK_def)
  from inst [THEN conjunct2, THEN conjunct2, rule_format, OF this]
  obtain tr where tr: "prep_block 3 (\<lambda>r a. N_STEP_CHUNK) segment_zero sample_data = Some tr"
    "end_of_block_flag (flag (fst (last tr)))"
    unfolding f by blast
  have g: "(3 :: nat) = Suc (Suc (Suc 0))" by simp
  have m: "map (flag \<circ> fst) tr = [ST_NOOP, ST_DECEL_EOB]"
    using tr(1) unfolding g sample_block_trace by auto
  have e1: "\<exists>s'. isr grbl_config ring_extern sample_prepped = Some s'
         \<and> planner s' = planner sample_prepped"
    using t p1 by (intro exI [of _ s1]) simp
  have e2: "\<exists>c r'. block_start grbl_config ring_extern [Tick, Tick] sample_prepped = Some (c, r')
         \<and> load_flag (st r') = LOAD_BLOCK
         \<and> planner r' = plan_discard_current_block ring_extern (planner sample_prepped)
         \<and> block_buffer_tail (planner sample_prepped) = 0
         \<and> block_buffer_tail (planner r') = 1"
    using run lf p2 t0 tl by (intro exI [of _ c] exI [of _ r']) simp
  have e3: "\<exists>tr. prep_block 3 (\<lambda>r a. N_STEP_CHUNK) segment_zero sample_data = Some tr
         \<and> map (flag \<circ> fst) tr = [ST_NOOP, ST_DECEL_EOB]
         \<and> end_of_block_flag (flag (fst (last tr)))"
    using tr m by (intro exI [of _ tr]) simp
  from e1 e2 a b e3 show ?thesis by (intro conjI)
qed

section \<open>The Bresenham tracer\<close>

text \<open>One event of the Bresenham tracer on integers.\<close>

lemma bresenham_int_step:
  fixes c n st :: int and k e :: nat
  assumes "c = n div 2 - int k * st + int e * n" "0 \<le> c" "c < n" "0 \<le> st" "st \<le> n"
  shows "c - st < 0 \<Longrightarrow>
           c - st + n = n div 2 - int (k + 1) * st + int (e + 1) * n
           \<and> 0 \<le> c - st + n \<and> c - st + n < n"
    and "\<not> c - st < 0 \<Longrightarrow>
           c - st = n div 2 - int (k + 1) * st + int e * n \<and> 0 \<le> c - st \<and> c - st < n"
  using assms by (auto simp: algebra_simps)

lemma bresenham_int_exact:
  fixes c n st :: int and e :: nat
  assumes "c = n div 2 - n * st + int e * n" "0 \<le> c" "c < n" "0 < n"
  shows "int e = st"
proof -
  have h: "0 \<le> n div 2" "n div 2 < n" using assms(4) by simp_all
  have c: "c = n div 2 + (int e - st) * n" using assms(1) by (simp add: algebra_simps)
  show ?thesis
  proof (rule ccontr)
    assume "int e \<noteq> st"
    then consider "1 \<le> int e - st" | "int e - st \<le> - 1" by linarith
    then show False
    proof cases
      case 1
      then have "1 * n \<le> (int e - st) * n" using assms(4) by (intro mult_right_mono) simp_all
      with c h assms(3) show False by simp
    next
      case 2
      then have "(int e - st) * n \<le> (- 1) * n" using assms(4) by (intro mult_right_mono) simp_all
      with c h assms(2) show False by simp
    qed
  qed
qed

text \<open>One axis of the tracer in the code, read as integers.\<close>

lemma bresenham_axis_sint:
  fixes counter axis_steps event_count pos :: int32_t
  assumes c: "0 \<le> sint counter" "sint counter < sint event_count"
    and s: "0 \<le> sint axis_steps" "sint axis_steps \<le> sint event_count"
  shows "bresenham_axis sb db axis_steps event_count (counter, bits, pos) =
     (if sint counter - sint axis_steps < 0
      then (counter - axis_steps + event_count, bits OR push_bit sb 1,
            if (bits OR push_bit sb 1) AND push_bit db 1 \<noteq> 0 then pos - 1 else pos + 1)
      else (counter - axis_steps, bits, pos))"
    and "sint (counter - axis_steps) = sint counter - sint axis_steps"
    and "sint counter - sint axis_steps < 0 \<Longrightarrow>
           sint (counter - axis_steps + event_count) =
             sint counter - sint axis_steps + sint event_count"
proof -
  have nb: "sint event_count < 2 ^ 31" using sint_lt [of event_count] by simp
  show d: "sint (counter - axis_steps) = sint counter - sint axis_steps"
    using c s nb by (intro sint32_diff) linarith+
  show "sint (counter - axis_steps + event_count) =
             sint counter - sint axis_steps + sint event_count"
    if "sint counter - sint axis_steps < 0"
    using that c s nb d by (intro sint32_sum [THEN trans]) simp_all
  show "bresenham_axis sb db axis_steps event_count (counter, bits, pos) =
     (if sint counter - sint axis_steps < 0
      then (counter - axis_steps + event_count, bits OR push_bit sb 1,
            if (bits OR push_bit sb 1) AND push_bit db 1 \<noteq> 0 then pos - 1 else pos + 1)
      else (counter - axis_steps, bits, pos))"
    by (simp add: bresenham_axis_def Let_def word_sless_alt d)
qed

end
